theory Spec2Isabelle
  imports Main "HOL-Library.Word"
begin

unbundle bit_operations_syntax

section \<open>ldns-testns: data model\<close>

text \<open>
  The embedding follows \<^verbatim>\<open>examples/nsd-test/ldns-testns.c\<close>.  The ldns library
  itself (packets, records, the text and wire codecs) is not part of that file; its
  objects are represented by the records below and its accessors by the functions
  named after them.
\<close>

type_synonym dname = "string list"
  \<comment> \<open>a domain name (\<^verbatim>\<open>ldns_rdf\<close> of type dname): its labels, root omitted\<close>

type_synonym rdf = "8 word list"
  \<comment> \<open>the data of one rdata field (\<^verbatim>\<open>ldns_rdf\<close>), in wire format\<close>

record ldns_rr =
  rr_owner :: dname
  rr_type :: nat
  rr_ttl :: "32 word"
  rr_rdfs :: "rdf list"

text \<open>
  Modelled from the spec: the opcode and response-code enumerations are declared in
  the headers of the library, which are not in the source file; the spec names them
  as the opcode and response-code vocabulary of the canned message.  Their values are
  the codes of the DNS message header, so that an inbound message may carry an opcode
  that has no name here.
\<close>

type_synonym ldns_pkt_opcode = nat
type_synonym ldns_pkt_rcode = nat

definition LDNS_PACKET_QUERY :: ldns_pkt_opcode where "LDNS_PACKET_QUERY = 0"
definition LDNS_PACKET_IQUERY :: ldns_pkt_opcode where "LDNS_PACKET_IQUERY = 1"
definition LDNS_PACKET_STATUS :: ldns_pkt_opcode where "LDNS_PACKET_STATUS = 2"
definition LDNS_PACKET_NOTIFY :: ldns_pkt_opcode where "LDNS_PACKET_NOTIFY = 4"
definition LDNS_PACKET_UPDATE :: ldns_pkt_opcode where "LDNS_PACKET_UPDATE = 5"

definition LDNS_RCODE_NOERROR :: ldns_pkt_rcode where "LDNS_RCODE_NOERROR = 0"
definition LDNS_RCODE_FORMERR :: ldns_pkt_rcode where "LDNS_RCODE_FORMERR = 1"
definition LDNS_RCODE_SERVFAIL :: ldns_pkt_rcode where "LDNS_RCODE_SERVFAIL = 2"
definition LDNS_RCODE_NXDOMAIN :: ldns_pkt_rcode where "LDNS_RCODE_NXDOMAIN = 3"
definition LDNS_RCODE_NOTIMPL :: ldns_pkt_rcode where "LDNS_RCODE_NOTIMPL = 4"
definition LDNS_RCODE_YXDOMAIN :: ldns_pkt_rcode where "LDNS_RCODE_YXDOMAIN = 6"
definition LDNS_RCODE_YXRRSET :: ldns_pkt_rcode where "LDNS_RCODE_YXRRSET = 7"
definition LDNS_RCODE_NXRRSET :: ldns_pkt_rcode where "LDNS_RCODE_NXRRSET = 8"
definition LDNS_RCODE_NOTAUTH :: ldns_pkt_rcode where "LDNS_RCODE_NOTAUTH = 9"
definition LDNS_RCODE_NOTZONE :: ldns_pkt_rcode where "LDNS_RCODE_NOTZONE = 10"

datatype ldns_pkt_section =
  LDNS_SECTION_QUESTION | LDNS_SECTION_ANSWER | LDNS_SECTION_AUTHORITY
  | LDNS_SECTION_ADDITIONAL

record ldns_pkt =
  pkt_id :: "16 word"
  pkt_opcode :: ldns_pkt_opcode
  pkt_rcode :: ldns_pkt_rcode
  pkt_qr :: bool
  pkt_aa :: bool
  pkt_tc :: bool
  pkt_rd :: bool
  pkt_cd :: bool
  pkt_ra :: bool
  pkt_ad :: bool
  pkt_question :: "ldns_rr list"
  pkt_answer :: "ldns_rr list"
  pkt_authority :: "ldns_rr list"
  pkt_additional :: "ldns_rr list"

text \<open>
  Packets are heap objects in the C program: an entry holds a pointer to its canned
  reply, and the answer that is sent is a separate allocation.  The packet heap maps
  an address to the packet stored there; \<open>brk\<close> is the first address never handed out.
  Freed addresses are not reused.
\<close>

record pkt_heap =
  pkts :: "nat \<Rightarrow> ldns_pkt"
  brk :: nat

datatype transport_type = transport_any | transport_udp | transport_tcp

record entry =
  match_opcode :: bool
  match_qtype :: bool
  match_qname :: bool
  match_serial :: bool
  ixfr_soa_serial :: "32 word"
  match_transport :: transport_type
  reply :: nat
  copy_id :: bool

text \<open>
  The \<^verbatim>\<open>next\<close> pointer of \<^verbatim>\<open>struct entry\<close> is the list structure itself: a linked
  list of entries is an \<open>entry list\<close>, in the order of the \<^verbatim>\<open>next\<close> chain.
\<close>


section \<open>The ldns library, as far as the program uses it\<close>

text \<open>
  Modelled from the spec: \<^verbatim>\<open>ldns_pkt_new\<close> is library code that is not in the
  source file; the spec has a new Entry start with "an empty canned reply message".
\<close>

definition empty_pkt :: ldns_pkt where
  "empty_pkt = \<lparr>pkt_id = 0, pkt_opcode = LDNS_PACKET_QUERY, pkt_rcode = LDNS_RCODE_NOERROR,
     pkt_qr = False, pkt_aa = False, pkt_tc = False, pkt_rd = False, pkt_cd = False,
     pkt_ra = False, pkt_ad = False, pkt_question = [], pkt_answer = [],
     pkt_authority = [], pkt_additional = []\<rparr>"

definition ldns_pkt_new :: "pkt_heap \<Rightarrow> pkt_heap \<times> nat" where
  "ldns_pkt_new h = (h\<lparr>pkts := (pkts h)(brk h := empty_pkt), brk := Suc (brk h)\<rparr>, brk h)"

text \<open>
  Modelled from the spec: \<^verbatim>\<open>ldns_pkt_clone\<close> is library code that is not in the
  source file; the spec calls it a deep clone of the canned reply message, so the
  copy is a new heap object with the same contents.
\<close>

definition ldns_pkt_clone :: "pkt_heap \<Rightarrow> nat \<Rightarrow> pkt_heap \<times> nat" where
  "ldns_pkt_clone h p = (h\<lparr>pkts := (pkts h)(brk h := pkts h p), brk := Suc (brk h)\<rparr>, brk h)"

text \<open>
  Modelled from the spec: the header mutators and \<^verbatim>\<open>ldns_pkt_push_rr\<close> are library
  code that is not in the source file; the spec describes them as setters of one
  header field of a message and as appending a record to one section.
\<close>

definition pkt_update :: "pkt_heap \<Rightarrow> nat \<Rightarrow> (ldns_pkt \<Rightarrow> ldns_pkt) \<Rightarrow> pkt_heap" where
  "pkt_update h p f = h\<lparr>pkts := (pkts h)(p := f (pkts h p))\<rparr>"

definition ldns_pkt_set_id :: "pkt_heap \<Rightarrow> nat \<Rightarrow> 16 word \<Rightarrow> pkt_heap" where
  "ldns_pkt_set_id h p v = pkt_update h p (\<lambda>k. k\<lparr>pkt_id := v\<rparr>)"

definition ldns_pkt_set_opcode :: "pkt_heap \<Rightarrow> nat \<Rightarrow> ldns_pkt_opcode \<Rightarrow> pkt_heap" where
  "ldns_pkt_set_opcode h p v = pkt_update h p (\<lambda>k. k\<lparr>pkt_opcode := v\<rparr>)"

definition ldns_pkt_set_rcode :: "pkt_heap \<Rightarrow> nat \<Rightarrow> ldns_pkt_rcode \<Rightarrow> pkt_heap" where
  "ldns_pkt_set_rcode h p v = pkt_update h p (\<lambda>k. k\<lparr>pkt_rcode := v\<rparr>)"

definition ldns_pkt_set_qr :: "pkt_heap \<Rightarrow> nat \<Rightarrow> bool \<Rightarrow> pkt_heap" where
  "ldns_pkt_set_qr h p v = pkt_update h p (\<lambda>k. k\<lparr>pkt_qr := v\<rparr>)"

definition ldns_pkt_set_aa :: "pkt_heap \<Rightarrow> nat \<Rightarrow> bool \<Rightarrow> pkt_heap" where
  "ldns_pkt_set_aa h p v = pkt_update h p (\<lambda>k. k\<lparr>pkt_aa := v\<rparr>)"

definition ldns_pkt_set_tc :: "pkt_heap \<Rightarrow> nat \<Rightarrow> bool \<Rightarrow> pkt_heap" where
  "ldns_pkt_set_tc h p v = pkt_update h p (\<lambda>k. k\<lparr>pkt_tc := v\<rparr>)"

definition ldns_pkt_set_rd :: "pkt_heap \<Rightarrow> nat \<Rightarrow> bool \<Rightarrow> pkt_heap" where
  "ldns_pkt_set_rd h p v = pkt_update h p (\<lambda>k. k\<lparr>pkt_rd := v\<rparr>)"

definition ldns_pkt_set_cd :: "pkt_heap \<Rightarrow> nat \<Rightarrow> bool \<Rightarrow> pkt_heap" where
  "ldns_pkt_set_cd h p v = pkt_update h p (\<lambda>k. k\<lparr>pkt_cd := v\<rparr>)"

definition ldns_pkt_set_ra :: "pkt_heap \<Rightarrow> nat \<Rightarrow> bool \<Rightarrow> pkt_heap" where
  "ldns_pkt_set_ra h p v = pkt_update h p (\<lambda>k. k\<lparr>pkt_ra := v\<rparr>)"

definition ldns_pkt_set_ad :: "pkt_heap \<Rightarrow> nat \<Rightarrow> bool \<Rightarrow> pkt_heap" where
  "ldns_pkt_set_ad h p v = pkt_update h p (\<lambda>k. k\<lparr>pkt_ad := v\<rparr>)"

definition ldns_pkt_push_rr :: "pkt_heap \<Rightarrow> nat \<Rightarrow> ldns_pkt_section \<Rightarrow> ldns_rr \<Rightarrow> pkt_heap" where
  "ldns_pkt_push_rr h p s rr = pkt_update h p (\<lambda>k.
     case s of
       LDNS_SECTION_QUESTION \<Rightarrow> k\<lparr>pkt_question := pkt_question k @ [rr]\<rparr>
     | LDNS_SECTION_ANSWER \<Rightarrow> k\<lparr>pkt_answer := pkt_answer k @ [rr]\<rparr>
     | LDNS_SECTION_AUTHORITY \<Rightarrow> k\<lparr>pkt_authority := pkt_authority k @ [rr]\<rparr>
     | LDNS_SECTION_ADDITIONAL \<Rightarrow> k\<lparr>pkt_additional := pkt_additional k @ [rr]\<rparr>)"

text \<open>
  \<^verbatim>\<open>ldns_rr_list_rr(l, 0)\<close> is the first record of a list or NULL, and
  \<^verbatim>\<open>ldns_rr_rdf(rr, n)\<close> the n-th rdata field or NULL.
\<close>

definition ldns_rr_list_rr :: "ldns_rr list \<Rightarrow> nat \<Rightarrow> ldns_rr option" where
  "ldns_rr_list_rr l n = (if n < length l then Some (l ! n) else None)"

definition ldns_rr_rdf :: "ldns_rr \<Rightarrow> nat \<Rightarrow> rdf option" where
  "ldns_rr_rdf rr n = (if n < length (rr_rdfs rr) then Some (rr_rdfs rr ! n) else None)"

text \<open>
  Modelled from the spec: \<^verbatim>\<open>ldns_rdf2native_int32\<close> is library code that is not in
  the source file; the spec has it read the 32-bit serial out of the field.  The field
  data is in network byte order.
\<close>

definition ldns_rdf2native_int32 :: "rdf \<Rightarrow> 32 word" where
  "ldns_rdf2native_int32 d = foldl (\<lambda>a b. push_bit 8 a OR ucast b) 0 (take 4 d)"

text \<open>
  Modelled from the spec: \<^verbatim>\<open>ldns_dname_compare\<close> is library code that is not in the
  source file; the spec describes it as case-insensitive domain-name equality.  The
  program only tests the result against 0, so every unequal pair is given 1.
\<close>

definition lower_char :: "char \<Rightarrow> char" where
  "lower_char c =
     (if (65::nat) \<le> of_char c \<and> of_char c \<le> (90::nat)
      then (case c of Char b0 b1 b2 b3 b4 b5 b6 b7 \<Rightarrow> Char b0 b1 b2 b3 b4 True b6 b7)
      else c)"

definition ldns_dname_compare :: "dname \<Rightarrow> dname \<Rightarrow> int" where
  "ldns_dname_compare a b =
     (if map (map lower_char) a = map (map lower_char) b then 0 else 1)"


section \<open>Entry Matcher and Response Builder\<close>

definition get_qtype :: "ldns_pkt \<Rightarrow> nat" where
  "get_qtype p =
     (case ldns_rr_list_rr (pkt_question p) 0 of
        None \<Rightarrow> 0
      | Some rr \<Rightarrow> rr_type rr)"

definition get_owner :: "ldns_pkt \<Rightarrow> dname option" where
  "get_owner p =
     (case ldns_rr_list_rr (pkt_question p) 0 of
        None \<Rightarrow> None
      | Some rr \<Rightarrow> Some (rr_owner rr))"

definition get_serial :: "ldns_pkt \<Rightarrow> 32 word" where
  "get_serial p =
     (case ldns_rr_list_rr (pkt_authority p) 0 of
        None \<Rightarrow> 0
      | Some rr \<Rightarrow>
          (case ldns_rr_rdf rr 2 of
             None \<Rightarrow> 0
           | Some rdf \<Rightarrow> ldns_rdf2native_int32 rdf))"

text \<open>
  \<^verbatim>\<open>find_match\<close>: the \<^verbatim>\<open>for\<close> loop over the \<^verbatim>\<open>next\<close> chain; every
  \<^verbatim>\<open>continue\<close> is the recursive call on the rest of the list.
\<close>

fun find_match :: "pkt_heap \<Rightarrow> entry list \<Rightarrow> ldns_pkt \<Rightarrow> transport_type \<Rightarrow> entry option" where
  "find_match h [] query_pkt transport = None"
| "find_match h (p # rest) query_pkt transport =
     (if match_opcode p \<and> pkt_opcode query_pkt \<noteq> pkt_opcode (pkts h (reply p))
        then find_match h rest query_pkt transport
      else if match_qtype p \<and> get_qtype query_pkt \<noteq> get_qtype (pkts h (reply p))
        then find_match h rest query_pkt transport
      else if match_qname p \<and>
              (case get_owner query_pkt of
                 None \<Rightarrow> True
               | Some qo \<Rightarrow>
                   (case get_owner (pkts h (reply p)) of
                      None \<Rightarrow> True
                    | Some ro \<Rightarrow> ldns_dname_compare qo ro \<noteq> 0))
        then find_match h rest query_pkt transport
      else if match_serial p \<and> get_serial (pkts h (reply p)) \<noteq> ixfr_soa_serial p
        then find_match h rest query_pkt transport
      else if match_transport p \<noteq> transport_any \<and> match_transport p \<noteq> transport
        then find_match h rest query_pkt transport
      else Some p)"

text \<open>
  \<^verbatim>\<open>get_answer\<close> returns the heap after the call and the address of the answer
  packet, or no address (NULL) when nothing matched.
\<close>

definition get_answer ::
  "pkt_heap \<Rightarrow> entry list \<Rightarrow> ldns_pkt \<Rightarrow> transport_type \<Rightarrow> pkt_heap \<times> nat option" where
  "get_answer h entries query_pkt transport =
     (case find_match h entries query_pkt transport of
        None \<Rightarrow> (h, None)
      | Some m \<Rightarrow>
          (let (h1, answer_pkt) = ldns_pkt_clone h (reply m);
               h2 = (if copy_id m then ldns_pkt_set_id h1 answer_pkt (pkt_id query_pkt) else h1)
           in (h2, Some answer_pkt)))"


section \<open>Grammar primitives\<close>

text \<open>
  A C string is the list of its characters before the terminating NUL; \<open>peek\<close> is
  the dereference \<^verbatim>\<open>*parse\<close>, which reads the NUL at the end of the string.
\<close>

definition peek :: "string \<Rightarrow> char" where
  "peek s = (case s of [] \<Rightarrow> CHR 0x00 | c # _ \<Rightarrow> c)"

definition isspace :: "char \<Rightarrow> bool" where
  "isspace c \<longleftrightarrow> c = CHR '' '' \<or> c = CHR 0x09 \<or> c = CHR 0x0A \<or> c = CHR 0x0B
                 \<or> c = CHR 0x0C \<or> c = CHR 0x0D"

definition isdigit :: "char \<Rightarrow> bool" where
  "isdigit c \<longleftrightarrow> (48::nat) \<le> of_char c \<and> of_char c \<le> (57::nat)"

definition isendline :: "char \<Rightarrow> bool" where
  "isendline c \<longleftrightarrow> c = CHR '';'' \<or> c = CHR ''#'' \<or> c = CHR 0x0A \<or> c = CHR 0x00"

text \<open>
  \<^verbatim>\<open>str_keyword\<close> returns false and leaves the cursor (\<open>None\<close>), or moves the
  cursor past the keyword and the white space after it and returns true (\<open>Some\<close> of
  the new cursor).
\<close>

definition str_keyword :: "string \<Rightarrow> string \<Rightarrow> string option" where
  "str_keyword str keyword =
     (let len = length keyword in
      if take len str \<noteq> keyword then None
      else Some (dropWhile isspace (drop len str)))"

text \<open>
  \<^verbatim>\<open>strtol(s, &end, 10)\<close> of the C library, with a 64-bit \<^verbatim>\<open>long\<close>: white space,
  an optional sign, decimal digits; the value is clamped to the range of \<^verbatim>\<open>long\<close>;
  without a digit the value is 0 and the end pointer is \<open>s\<close> itself.
  \<^verbatim>\<open>atoi(s)\<close> is \<^verbatim>\<open>(int)strtol(s, NULL, 10)\<close>.
\<close>

definition digits_val :: "string \<Rightarrow> int" where
  "digits_val ds = foldl (\<lambda>a c. 10 * a + (int (of_char c) - 48)) 0 ds"

definition strtol :: "string \<Rightarrow> int \<times> string" where
  "strtol s =
     (let s1 = dropWhile isspace s;
          neg = (peek s1 = CHR ''-'');
          s2 = (if peek s1 = CHR ''-'' \<or> peek s1 = CHR ''+'' then tl s1 else s1);
          ds = takeWhile isdigit s2
      in if ds = [] then (0, s)
         else (max (- (2 ^ 63)) (min (2 ^ 63 - 1) (if neg then - digits_val ds else digits_val ds)),
               dropWhile isdigit s2))"

definition atoi :: "string \<Rightarrow> int" where
  "atoi s = sint (word_of_int (fst (strtol s)) :: 32 word)"


section \<open>Directive interpreters\<close>

text \<open>
  \<^verbatim>\<open>error(...)\<close> prints its message and exits the process: the functions below
  return the error (with the arguments of the message) in place of a result.
\<close>

datatype parse_error =
    Cannot_open_file string
  | Match_expected_eq string
  | Match_unparsed string
  | Reply_unparsed string
  | Adjust_unparsed string
  | Origin_error string nat string string
  | Entry_not_ended string nat
  | Expected_entry_begin string nat string
  | Bad_section string nat string
  | Rr_error string nat string string

text \<open>One pass of the \<^verbatim>\<open>while\<close> loop of \<^verbatim>\<open>matchline\<close>, from the first keyword test on.\<close>

definition matchline_step :: "string \<Rightarrow> string \<Rightarrow> entry \<Rightarrow> parse_error + (string \<times> entry)" where
  "matchline_step line parse e =
     (case str_keyword parse ''opcode'' of
        Some p \<Rightarrow> Inr (p, e\<lparr>match_opcode := True\<rparr>)
      | None \<Rightarrow>
     (case str_keyword parse ''qtype'' of
        Some p \<Rightarrow> Inr (p, e\<lparr>match_qtype := True\<rparr>)
      | None \<Rightarrow>
     (case str_keyword parse ''qname'' of
        Some p \<Rightarrow> Inr (p, e\<lparr>match_qname := True\<rparr>)
      | None \<Rightarrow>
     (case str_keyword parse ''UDP'' of
        Some p \<Rightarrow> Inr (p, e\<lparr>match_transport := transport_udp\<rparr>)
      | None \<Rightarrow>
     (case str_keyword parse ''TCP'' of
        Some p \<Rightarrow> Inr (p, e\<lparr>match_transport := transport_tcp\<rparr>)
      | None \<Rightarrow>
     (case str_keyword parse ''serial'' of
        Some p \<Rightarrow>
          (if peek p \<noteq> CHR ''='' \<and> peek p \<noteq> CHR '':'' then Inl (Match_expected_eq line)
           else (let (v, p') = strtol (tl p)
                 in Inr (dropWhile isspace p',
                         e\<lparr>match_serial := True, ixfr_soa_serial := word_of_int v\<rparr>)))
      | None \<Rightarrow> Inl (Match_unparsed parse)))))))"

definition replyline_step :: "string \<Rightarrow> entry \<Rightarrow> pkt_heap \<Rightarrow> (string \<times> pkt_heap) option" where
  "replyline_step parse e h =
     (case str_keyword parse ''QUERY'' of
        Some p \<Rightarrow> Some (p, ldns_pkt_set_opcode h (reply e) LDNS_PACKET_QUERY) | None \<Rightarrow>
     (case str_keyword parse ''IQUERY'' of
        Some p \<Rightarrow> Some (p, ldns_pkt_set_opcode h (reply e) LDNS_PACKET_IQUERY) | None \<Rightarrow>
     (case str_keyword parse ''STATUS'' of
        Some p \<Rightarrow> Some (p, ldns_pkt_set_opcode h (reply e) LDNS_PACKET_STATUS) | None \<Rightarrow>
     (case str_keyword parse ''NOTIFY'' of
        Some p \<Rightarrow> Some (p, ldns_pkt_set_opcode h (reply e) LDNS_PACKET_NOTIFY) | None \<Rightarrow>
     (case str_keyword parse ''UPDATE'' of
        Some p \<Rightarrow> Some (p, ldns_pkt_set_opcode h (reply e) LDNS_PACKET_UPDATE) | None \<Rightarrow>
     (case str_keyword parse ''NOERROR'' of
        Some p \<Rightarrow> Some (p, ldns_pkt_set_rcode h (reply e) LDNS_RCODE_NOERROR) | None \<Rightarrow>
     (case str_keyword parse ''FORMERR'' of
        Some p \<Rightarrow> Some (p, ldns_pkt_set_rcode h (reply e) LDNS_RCODE_FORMERR) | None \<Rightarrow>
     (case str_keyword parse ''SERVFAIL'' of
        Some p \<Rightarrow> Some (p, ldns_pkt_set_rcode h (reply e) LDNS_RCODE_SERVFAIL) | None \<Rightarrow>
     (case str_keyword parse ''NXDOMAIN'' of
        Some p \<Rightarrow> Some (p, ldns_pkt_set_rcode h (reply e) LDNS_RCODE_NXDOMAIN) | None \<Rightarrow>
     (case str_keyword parse ''NOTIMPL'' of
        Some p \<Rightarrow> Some (p, ldns_pkt_set_rcode h (reply e) LDNS_RCODE_NOTIMPL) | None \<Rightarrow>
     (case str_keyword parse ''YXDOMAIN'' of
        Some p \<Rightarrow> Some (p, ldns_pkt_set_rcode h (reply e) LDNS_RCODE_YXDOMAIN) | None \<Rightarrow>
     (case str_keyword parse ''YXRRSET'' of
        Some p \<Rightarrow> Some (p, ldns_pkt_set_rcode h (reply e) LDNS_RCODE_YXRRSET) | None \<Rightarrow>
     (case str_keyword parse ''NXRRSET'' of
        Some p \<Rightarrow> Some (p, ldns_pkt_set_rcode h (reply e) LDNS_RCODE_NXRRSET) | None \<Rightarrow>
     (case str_keyword parse ''NOTAUTH'' of
        Some p \<Rightarrow> Some (p, ldns_pkt_set_rcode h (reply e) LDNS_RCODE_NOTAUTH) | None \<Rightarrow>
     (case str_keyword parse ''NOTZONE'' of
        Some p \<Rightarrow> Some (p, ldns_pkt_set_rcode h (reply e) LDNS_RCODE_NOTZONE) | None \<Rightarrow>
     (case str_keyword parse ''QR'' of
        Some p \<Rightarrow> Some (p, ldns_pkt_set_qr h (reply e) True) | None \<Rightarrow>
     (case str_keyword parse ''AA'' of
        Some p \<Rightarrow> Some (p, ldns_pkt_set_aa h (reply e) True) | None \<Rightarrow>
     (case str_keyword parse ''TC'' of
        Some p \<Rightarrow> Some (p, ldns_pkt_set_tc h (reply e) True) | None \<Rightarrow>
     (case str_keyword parse ''RD'' of
        Some p \<Rightarrow> Some (p, ldns_pkt_set_rd h (reply e) True) | None \<Rightarrow>
     (case str_keyword parse ''CD'' of
        Some p \<Rightarrow> Some (p, ldns_pkt_set_cd h (reply e) True) | None \<Rightarrow>
     (case str_keyword parse ''RA'' of
        Some p \<Rightarrow> Some (p, ldns_pkt_set_ra h (reply e) True) | None \<Rightarrow>
     (case str_keyword parse ''AD'' of
        Some p \<Rightarrow> Some (p, ldns_pkt_set_ad h (reply e) True) | None \<Rightarrow>
      None))))))))))))))))))))))"

lemma str_keyword_shorter:
  "str_keyword str keyword = Some p \<Longrightarrow> keyword \<noteq> [] \<Longrightarrow> length p < length str"
proof -
  assume a: "str_keyword str keyword = Some p" and k: "keyword \<noteq> []"
  from a have t: "take (length keyword) str = keyword"
    and p: "p = dropWhile isspace (drop (length keyword) str)"
    by (auto simp: str_keyword_def Let_def split: if_splits)
  from t have "length (take (length keyword) str) = length keyword"
    by simp
  then have "length keyword \<le> length str"
    by simp
  with k have "length (drop (length keyword) str) < length str"
    by (cases keyword) auto
  moreover have "length p \<le> length (drop (length keyword) str)"
    unfolding p by (rule length_dropWhile_le)
  ultimately show ?thesis by simp
qed

lemma strtol_end_le: "length (snd (strtol s)) \<le> length s"
proof -
  let ?s1 = "dropWhile isspace s"
  let ?s2 = "if peek ?s1 = CHR ''-'' \<or> peek ?s1 = CHR ''+'' then tl ?s1 else ?s1"
  have "length (dropWhile isdigit ?s2) \<le> length ?s2"
    by (rule length_dropWhile_le)
  also have "\<dots> \<le> length ?s1" by simp
  also have "\<dots> \<le> length s" by (rule length_dropWhile_le)
  finally show ?thesis by (simp add: strtol_def Let_def)
qed

lemma matchline_step_shorter:
  assumes "matchline_step line parse e = Inr (p, e')"
  shows "length p < length parse"
proof -
  have serial: "length (dropWhile isspace (snd (strtol (tl q)))) < length parse"
    if "str_keyword parse ''serial'' = Some q" for q
  proof -
    have "length (dropWhile isspace (snd (strtol (tl q)))) \<le> length (snd (strtol (tl q)))"
      by (rule length_dropWhile_le)
    also have "\<dots> \<le> length (tl q)" by (rule strtol_end_le)
    also have "\<dots> \<le> length q" by simp
    also have "\<dots> < length parse" using that by (rule str_keyword_shorter) simp
    finally show ?thesis .
  qed
  from assms show ?thesis
    by (auto simp: matchline_step_def split: option.splits if_splits prod.splits
        dest: str_keyword_shorter serial)
qed

lemma replyline_step_shorter:
  "replyline_step parse e h = Some (p, h') \<Longrightarrow> length p < length parse"
  by (auto simp: replyline_step_def split: option.splits dest: str_keyword_shorter)

function matchline_loop :: "string \<Rightarrow> string \<Rightarrow> entry \<Rightarrow> parse_error + entry" where
  "matchline_loop line parse e =
     (if parse = [] then Inr e
      else if isendline (peek parse) then Inr e
      else (case matchline_step line parse e of
              Inl err \<Rightarrow> Inl err
            | Inr (p, e') \<Rightarrow> matchline_loop line p e'))"
  by pat_completeness auto
termination
  by (relation "measure (\<lambda>(line, parse, e). length parse)")
     (auto dest: matchline_step_shorter)

definition matchline :: "string \<Rightarrow> entry \<Rightarrow> parse_error + entry" where
  "matchline line e = matchline_loop line line e"

function replyline_loop :: "string \<Rightarrow> entry \<Rightarrow> pkt_heap \<Rightarrow> parse_error + pkt_heap" where
  "replyline_loop parse e h =
     (if parse = [] then Inr h
      else if isendline (peek parse) then Inr h
      else (case replyline_step parse e h of
              None \<Rightarrow> Inl (Reply_unparsed parse)
            | Some (p, h') \<Rightarrow> replyline_loop p e h'))"
  by pat_completeness auto
termination
  by (relation "measure (\<lambda>(parse, e, h). length parse)")
     (auto dest: replyline_step_shorter)

definition replyline :: "string \<Rightarrow> entry \<Rightarrow> pkt_heap \<Rightarrow> parse_error + pkt_heap" where
  "replyline line e h = replyline_loop line e h"

function adjustline_loop :: "string \<Rightarrow> entry \<Rightarrow> parse_error + entry" where
  "adjustline_loop parse e =
     (if parse = [] then Inr e
      else if isendline (peek parse) then Inr e
      else (case str_keyword parse ''copy_id'' of
              Some p \<Rightarrow> adjustline_loop p (e\<lparr>copy_id := True\<rparr>)
            | None \<Rightarrow> Inl (Adjust_unparsed parse)))"
  by pat_completeness auto
termination
  by (relation "measure (\<lambda>(parse, e). length parse)")
     (auto dest: str_keyword_shorter)

definition adjustline :: "string \<Rightarrow> entry \<Rightarrow> parse_error + entry" where
  "adjustline line e = adjustline_loop line e"


section \<open>Data-file parser\<close>

text \<open>
  The record-line and name decoders and the wire codec belong to the ldns library and
  are parameters of the model.  A decoder returns \<open>Inl\<close> of the error text of its
  status when the status is not \<^verbatim>\<open>LDNS_STATUS_OK\<close>.  The record-line decoder
  takes the line, the default TTL, the origin and the previous owner name, and
  returns the record with the new previous owner name.  The encoder
  \<^verbatim>\<open>ldns_pkt2wire\<close> takes the packet that its pointer argument points to, or
  \<open>None\<close> for a NULL pointer; what it returns for NULL is the library's and is
  left open here.
\<close>

record codec =
  ldns_str2rdf_dname :: "string \<Rightarrow> string + dname"
  ldns_rr_new_frm_str ::
    "string \<Rightarrow> 32 word \<Rightarrow> dname option \<Rightarrow> dname option \<Rightarrow> string + (ldns_rr \<times> dname option)"
  ldns_wire2pkt :: "8 word list \<Rightarrow> string + ldns_pkt"
  ldns_pkt2wire :: "ldns_pkt option \<Rightarrow> string + 8 word list"

text \<open>
  The local variables of \<^verbatim>\<open>read_datafile\<close> that live across lines.  \<^verbatim>\<open>list\<close> is
  \<open>entry_list\<close>; \<^verbatim>\<open>current\<close> is NULL or points to an entry of the list, given by its
  position; \<^verbatim>\<open>last\<close> always points to the last entry of the list and is not kept
  separately.
\<close>

record parse_state =
  heap :: pkt_heap
  entry_list :: "entry list"
  current :: "nat option"
  lineno :: nat
  add_section :: ldns_pkt_section
  default_ttl :: "16 word"
  origin :: "dname option"
  prev_rr :: "dname option"
  entry_num :: nat

definition MAX_LINE :: nat where
  "MAX_LINE = 10240"

definition new_entry :: "pkt_heap \<Rightarrow> pkt_heap \<times> entry" where
  "new_entry h =
     (let (h', r) = ldns_pkt_new h
      in (h', \<lparr>match_opcode = False, match_qtype = False, match_qname = False,
               match_serial = False, ixfr_soa_serial = 0, match_transport = transport_any,
               reply = r, copy_id = False\<rparr>))"

definition get_origin :: "codec \<Rightarrow> string \<Rightarrow> nat \<Rightarrow> string \<Rightarrow> parse_error + dname option" where
  "get_origin cd name ln parse =
     (case ldns_str2rdf_dname cd (takeWhile (\<lambda>c. \<not> isspace c \<and> \<not> isendline c) parse) of
        Inl errstr \<Rightarrow> Inl (Origin_error name ln errstr parse)
      | Inr d \<Rightarrow> Inr (Some d))"

definition init_state :: "pkt_heap \<Rightarrow> parse_state" where
  "init_state h = \<lparr>heap = h, entry_list = [], current = None, lineno = 0,
     add_section = LDNS_SECTION_QUESTION, default_ttl = 0, origin = None, prev_rr = None,
     entry_num = 0\<rparr>"

text \<open>
  The part of the loop body after the comment \<^verbatim>\<open>/* working inside an entry */\<close>,
  for \<^verbatim>\<open>current\<close> pointing to entry \<open>i\<close> of the list.
\<close>

definition entry_line :: "codec \<Rightarrow> string \<Rightarrow> parse_state \<Rightarrow> nat \<Rightarrow> string \<Rightarrow> parse_error + parse_state" where
  "entry_line cd name st i parse =
     (case str_keyword parse ''MATCH'' of
        Some p \<Rightarrow>
          (case matchline p (entry_list st ! i) of
             Inl err \<Rightarrow> Inl err
           | Inr e' \<Rightarrow> Inr (st\<lparr>entry_list := (entry_list st)[i := e']\<rparr>))
      | None \<Rightarrow>
     (case str_keyword parse ''REPLY'' of
        Some p \<Rightarrow>
          (case replyline p (entry_list st ! i) (heap st) of
             Inl err \<Rightarrow> Inl err
           | Inr h' \<Rightarrow> Inr (st\<lparr>heap := h'\<rparr>))
      | None \<Rightarrow>
     (case str_keyword parse ''ADJUST'' of
        Some p \<Rightarrow>
          (case adjustline p (entry_list st ! i) of
             Inl err \<Rightarrow> Inl err
           | Inr e' \<Rightarrow> Inr (st\<lparr>entry_list := (entry_list st)[i := e']\<rparr>))
      | None \<Rightarrow>
     (case str_keyword parse ''SECTION'' of
        Some p \<Rightarrow>
          (case str_keyword p ''QUESTION'' of
             Some _ \<Rightarrow> Inr (st\<lparr>add_section := LDNS_SECTION_QUESTION\<rparr>)
           | None \<Rightarrow>
          (case str_keyword p ''ANSWER'' of
             Some _ \<Rightarrow> Inr (st\<lparr>add_section := LDNS_SECTION_ANSWER\<rparr>)
           | None \<Rightarrow>
          (case str_keyword p ''AUTHORITY'' of
             Some _ \<Rightarrow> Inr (st\<lparr>add_section := LDNS_SECTION_AUTHORITY\<rparr>)
           | None \<Rightarrow>
          (case str_keyword p ''ADDITIONAL'' of
             Some _ \<Rightarrow> Inr (st\<lparr>add_section := LDNS_SECTION_ADDITIONAL\<rparr>)
           | None \<Rightarrow> Inl (Bad_section name (lineno st) p)))))
      | None \<Rightarrow>
     (case str_keyword parse ''ENTRY_END'' of
        Some _ \<Rightarrow> Inr (st\<lparr>current := None, entry_num := entry_num st + 1\<rparr>)
      | None \<Rightarrow>
          (case ldns_rr_new_frm_str cd parse (ucast (default_ttl st)) (origin st) (prev_rr st) of
             Inl errstr \<Rightarrow> Inl (Rr_error name (lineno st) errstr parse)
           | Inr (n, prev') \<Rightarrow>
               Inr (st\<lparr>prev_rr := prev',
                       heap := ldns_pkt_push_rr (heap st) (reply (entry_list st ! i))
                                 (add_section st) n\<rparr>)))))))"

text \<open>
  The C string in \<^verbatim>\<open>line\<close> after \<^verbatim>\<open>fgets\<close> has delivered \<open>raw\<close>: it ends at
  \<^verbatim>\<open>line[MAX_LINE-1]\<close> or at the first NUL.
\<close>

definition line_text :: "string \<Rightarrow> string" where
  "line_text raw = takeWhile (\<lambda>c. c \<noteq> CHR 0x00) (take (MAX_LINE - 1) raw)"

text \<open>The cursor \<^verbatim>\<open>parse\<close> after the white space at the start of the line is skipped.\<close>

definition line_start :: "string \<Rightarrow> string" where
  "line_start raw = dropWhile isspace (line_text raw)"

text \<open>
  One pass of the \<^verbatim>\<open>while(fgets(...))\<close> loop, for the line \<open>raw\<close> that
  \<^verbatim>\<open>fgets\<close> delivered.
\<close>

definition read_line :: "codec \<Rightarrow> string \<Rightarrow> parse_state \<Rightarrow> string \<Rightarrow> parse_error + parse_state" where
  "read_line cd name st0 raw =
     (let line = line_text raw;
          st = st0\<lparr>lineno := lineno st0 + 1\<rparr>;
          parse = line_start raw
      in if isendline (peek parse) then Inr st
         else
     (case str_keyword parse ''ENTRY_BEGIN'' of
        Some _ \<Rightarrow>
          (if current st \<noteq> None then Inl (Entry_not_ended name (lineno st))
           else (let (h', e) = new_entry (heap st)
                 in Inr (st\<lparr>heap := h', entry_list := entry_list st @ [e],
                            current := Some (length (entry_list st))\<rparr>)))
      | None \<Rightarrow>
     (case str_keyword parse ''$ORIGIN'' of
        Some p \<Rightarrow>
          (case get_origin cd name (lineno st) p of
             Inl err \<Rightarrow> Inl err
           | Inr org \<Rightarrow> Inr (st\<lparr>origin := org\<rparr>))
      | None \<Rightarrow>
     (case str_keyword parse ''$TTL'' of
        Some p \<Rightarrow> Inr (st\<lparr>default_ttl := word_of_int (atoi p)\<rparr>)
      | None \<Rightarrow>
     (case current st of
        None \<Rightarrow> Inl (Expected_entry_begin name (lineno st) line)
      | Some i \<Rightarrow> entry_line cd name st i parse)))))"

fun read_lines :: "codec \<Rightarrow> string \<Rightarrow> parse_state \<Rightarrow> string list \<Rightarrow> parse_error + parse_state" where
  "read_lines cd name st [] = Inr st"
| "read_lines cd name st (raw # rest) =
     (case read_line cd name st raw of
        Inl err \<Rightarrow> Inl err
      | Inr st' \<Rightarrow> read_lines cd name st' rest)"

text \<open>
  \<^verbatim>\<open>read_datafile\<close>: \<open>file\<close> is \<open>None\<close> when the file cannot be opened, and
  otherwise the lines that the successive \<^verbatim>\<open>fgets\<close> calls deliver.  The result is
  the heap, the list that is returned and the number printed as
  \<^verbatim>\<open>Read %d entries\<close>.
\<close>

definition read_datafile ::
  "codec \<Rightarrow> pkt_heap \<Rightarrow> string \<Rightarrow> string list option \<Rightarrow> parse_error + (pkt_heap \<times> entry list \<times> nat)" where
  "read_datafile cd h name file =
     (case file of
        None \<Rightarrow> Inl (Cannot_open_file name)
      | Some lines \<Rightarrow>
          (case read_lines cd name (init_state h) lines of
             Inl err \<Rightarrow> Inl err
           | Inr st \<Rightarrow> Inr (heap st, entry_list st, entry_num st)))"


section \<open>Request handling\<close>

definition INBUF_SIZE :: nat where
  "INBUF_SIZE = 4096"

text \<open>
  \<^verbatim>\<open>handle_query\<close> returns the heap, the query counter and the buffer to send, or no
  buffer (NULL).  The answer of \<^verbatim>\<open>get_answer\<close>, NULL when nothing matched, goes to
  the encoder as it is.  The packets that are freed stay in the heap of the model.
\<close>

definition handle_query ::
  "codec \<Rightarrow> pkt_heap \<Rightarrow> 8 word list \<Rightarrow> nat \<Rightarrow> entry list \<Rightarrow> nat \<Rightarrow> transport_type
     \<Rightarrow> pkt_heap \<times> nat \<times> 8 word list option" where
  "handle_query cd h inbuf inlen entries count transport =
     (case ldns_wire2pkt cd (take inlen inbuf) of
        Inl errstr \<Rightarrow> (h, count, None)
      | Inr query_pkt \<Rightarrow>
          (let (h', answer_pkt) = get_answer h entries query_pkt transport
           in (case ldns_pkt2wire cd (map_option (pkts h') answer_pkt) of
                 Inl errstr \<Rightarrow> (h', count + 1, None)
               | Inr outbuf \<Rightarrow> (h', count + 1, Some outbuf))))"

text \<open>
  \<^verbatim>\<open>handle_udp\<close>: \<open>dgram\<close> is \<open>None\<close> when \<^verbatim>\<open>recvfrom\<close> fails and otherwise the
  datagram that arrived, of which \<^verbatim>\<open>recvfrom\<close> stores at most \<^verbatim>\<open>INBUF_SIZE\<close>
  bytes.  The last component of the result is the datagram handed to \<^verbatim>\<open>sendto\<close>.
\<close>

definition handle_udp ::
  "codec \<Rightarrow> pkt_heap \<Rightarrow> entry list \<Rightarrow> nat \<Rightarrow> 8 word list option
     \<Rightarrow> pkt_heap \<times> nat \<times> 8 word list option" where
  "handle_udp cd h entries count dgram =
     (case dgram of
        None \<Rightarrow> (h, count, None)
      | Some d \<Rightarrow>
          (let inbuf = take INBUF_SIZE d; nb = length inbuf
           in if nb < 1 then (h, count, None)
              else handle_query cd h inbuf nb entries count transport_udp))"

text \<open>
  A stream connection is the list of what the successive \<^verbatim>\<open>read\<close> calls on it
  meet: a failure (\<^verbatim>\<open>read\<close> returns a negative number) or bytes that have arrived,
  of which a call takes at most as many as it asked for.  At the end of the list
  the peer has closed the connection and every \<^verbatim>\<open>read\<close> returns 0.

  \<^verbatim>\<open>read_n_bytes\<close>: \<open>buf\<close> is the memory that is read into, with the contents it
  had before.  The loop does not end when \<^verbatim>\<open>read\<close> returns 0 for ever: the result
  is \<open>None\<close> then.  When a \<^verbatim>\<open>read\<close> fills the buffer the next test of the loop
  ends it, and the bytes that were not taken stay in the connection.
\<close>

datatype read_event = Read_fails | Read_gives "8 word list"

definition store_bytes :: "8 word list \<Rightarrow> nat \<Rightarrow> 8 word list \<Rightarrow> 8 word list" where
  "store_bytes buf off bs = take off buf @ bs @ drop (off + length bs) buf"

fun read_n_bytes_from ::
  "read_event list \<Rightarrow> 8 word list \<Rightarrow> nat \<Rightarrow> nat \<Rightarrow> (read_event list \<times> 8 word list) option" where
  "read_n_bytes_from [] buf sz count = (if count < sz then None else Some ([], buf))"
| "read_n_bytes_from (ev # sock) buf sz count =
     (if count < sz then
        (case ev of
           Read_fails \<Rightarrow> Some (sock, buf)
         | Read_gives bs \<Rightarrow>
             (if length bs \<le> sz - count
              then read_n_bytes_from sock (store_bytes buf count bs) sz (count + length bs)
              else Some (Read_gives (drop (sz - count) bs) # sock,
                         store_bytes buf count (take (sz - count) bs))))
      else Some (ev # sock, buf))"

definition read_n_bytes ::
  "read_event list \<Rightarrow> 8 word list \<Rightarrow> nat \<Rightarrow> (read_event list \<times> 8 word list) option" where
  "read_n_bytes sock buf sz = read_n_bytes_from sock buf sz 0"

text \<open>
  \<^verbatim>\<open>ntohs\<close> of the two bytes of \<^verbatim>\<open>tcplen\<close> as they stand in memory, and the two
  bytes of \<^verbatim>\<open>htons(answer_size)\<close>.
\<close>

fun ntohs :: "8 word list \<Rightarrow> 16 word" where
  "ntohs (b0 # b1 # _) = push_bit 8 (ucast b0) OR ucast b1"
| "ntohs _ = 0"

definition htons :: "nat \<Rightarrow> 8 word list" where
  "htons n = [ucast (drop_bit 8 (word_of_nat n :: 16 word)), ucast (word_of_nat n :: 16 word)]"

text \<open>
  \<^verbatim>\<open>handle_tcp\<close>: \<open>conn\<close> is \<open>None\<close> when \<^verbatim>\<open>accept\<close> fails and otherwise the
  accepted connection; \<open>tcplen_mem\<close> (two bytes) and \<open>inbuf_mem\<close> are the contents of
  the local variables \<^verbatim>\<open>tcplen\<close> and \<^verbatim>\<open>inbuf\<close> before anything is read into them.
  The last component of the result holds the bytes written to the connection, every
  \<^verbatim>\<open>write\<close> taken to succeed; the result is \<open>None\<close> when a read loop does not end.
\<close>

definition handle_tcp ::
  "codec \<Rightarrow> pkt_heap \<Rightarrow> entry list \<Rightarrow> nat \<Rightarrow> read_event list option \<Rightarrow> 8 word list \<Rightarrow> 8 word list
     \<Rightarrow> (pkt_heap \<times> nat \<times> 8 word list) option" where
  "handle_tcp cd h entries count conn tcplen_mem inbuf_mem =
     (case conn of
        None \<Rightarrow> Some (h, count, [])
      | Some s \<Rightarrow>
          (case read_n_bytes s tcplen_mem 2 of
             None \<Rightarrow> None
           | Some (s1, lenbuf) \<Rightarrow>
               (let tcplen = ntohs lenbuf
                in if unat tcplen \<ge> INBUF_SIZE then Some (h, count, [])
                   else
                     (case read_n_bytes s1 inbuf_mem (unat tcplen) of
                        None \<Rightarrow> None
                      | Some (s2, inbuf) \<Rightarrow>
                          (case handle_query cd h inbuf (unat tcplen) entries count transport_tcp of
                             (h', count', None) \<Rightarrow> Some (h', count', [])
                           | (h', count', Some outbuf) \<Rightarrow>
                               Some (h', count', htons (length outbuf) @ outbuf))))))"


section \<open>Predicates in the words of the specification\<close>

subsection \<open>Matching predicates\<close>

text \<open>
  The type of the first question record, 0 without one; equality of the first question
  owner names without regard to case, false when a side has no question; the serial
  of the first authority record (its third rdata field), 0 without one.
\<close>

definition spec_qtype :: "ldns_pkt \<Rightarrow> nat" where
  "spec_qtype p = (case pkt_question p of [] \<Rightarrow> 0 | rr # _ \<Rightarrow> rr_type rr)"

definition spec_qname_equal :: "ldns_pkt \<Rightarrow> ldns_pkt \<Rightarrow> bool" where
  "spec_qname_equal q r =
     (case pkt_question q of
        [] \<Rightarrow> False
      | qrr # _ \<Rightarrow>
          (case pkt_question r of
             [] \<Rightarrow> False
           | rrr # _ \<Rightarrow> map (map lower_char) (rr_owner qrr) = map (map lower_char) (rr_owner rrr)))"

definition spec_soa_serial :: "ldns_pkt \<Rightarrow> 32 word" where
  "spec_soa_serial r =
     (case pkt_authority r of
        [] \<Rightarrow> 0
      | rr # _ \<Rightarrow>
          (case rr_rdfs rr of
             _ # _ # serial # _ \<Rightarrow> ldns_rdf2native_int32 serial
           | _ \<Rightarrow> 0))"

text \<open>
  The conjunction of the active predicates of an Entry; an inactive predicate is
  vacuously true.
\<close>

definition spec_entry_matches :: "pkt_heap \<Rightarrow> entry \<Rightarrow> ldns_pkt \<Rightarrow> transport_type \<Rightarrow> bool" where
  "spec_entry_matches h e q t \<longleftrightarrow>
     (match_opcode e \<longrightarrow> pkt_opcode q = pkt_opcode (pkts h (reply e))) \<and>
     (match_qtype e \<longrightarrow> spec_qtype q = spec_qtype (pkts h (reply e))) \<and>
     (match_qname e \<longrightarrow> spec_qname_equal q (pkts h (reply e))) \<and>
     (match_serial e \<longrightarrow> spec_soa_serial (pkts h (reply e)) = ixfr_soa_serial e) \<and>
     (match_transport e \<noteq> transport_any \<longrightarrow> match_transport e = t)"


subsection \<open>Lines of the data file\<close>

text \<open>The section that the rest of a \<^verbatim>\<open>SECTION\<close> line names, if it names one.\<close>

definition section_name :: "string \<Rightarrow> ldns_pkt_section option" where
  "section_name p =
     (if str_keyword p ''QUESTION'' \<noteq> None then Some LDNS_SECTION_QUESTION
      else if str_keyword p ''ANSWER'' \<noteq> None then Some LDNS_SECTION_ANSWER
      else if str_keyword p ''AUTHORITY'' \<noteq> None then Some LDNS_SECTION_AUTHORITY
      else if str_keyword p ''ADDITIONAL'' \<noteq> None then Some LDNS_SECTION_ADDITIONAL
      else None)"

text \<open>
  A line is handled before the parser works inside an entry when it is blank or a
  comment or starts with \<^verbatim>\<open>ENTRY_BEGIN\<close>, \<^verbatim>\<open>$ORIGIN\<close> or \<^verbatim>\<open>$TTL\<close>.
\<close>

definition top_level_line :: "string \<Rightarrow> bool" where
  "top_level_line raw \<longleftrightarrow>
     isendline (peek (line_start raw)) \<or> str_keyword (line_start raw) ''ENTRY_BEGIN'' \<noteq> None \<or>
     str_keyword (line_start raw) ''$ORIGIN'' \<noteq> None \<or> str_keyword (line_start raw) ''$TTL'' \<noteq> None"

text \<open>
  The section that a line names when the parser reads it as a \<^verbatim>\<open>SECTION\<close> directive:
  the line is not handled before the parser works inside an entry, starts with none of
  the keywords that are tried before \<^verbatim>\<open>SECTION\<close>, and has one of the four section
  names after the keyword.  \<open>last_section s lines\<close> is the section named by the last
  such directive among the lines, and \<open>s\<close> when there is none.
\<close>

definition section_directive :: "string \<Rightarrow> ldns_pkt_section option" where
  "section_directive raw =
     (if top_level_line raw then None
      else if str_keyword (line_start raw) ''MATCH'' \<noteq> None \<or>
              str_keyword (line_start raw) ''REPLY'' \<noteq> None \<or>
              str_keyword (line_start raw) ''ADJUST'' \<noteq> None then None
      else (case str_keyword (line_start raw) ''SECTION'' of
              None \<Rightarrow> None
            | Some p \<Rightarrow> section_name p))"

definition last_section :: "ldns_pkt_section \<Rightarrow> string list \<Rightarrow> ldns_pkt_section" where
  "last_section s lines =
     foldl (\<lambda>s raw. case section_directive raw of None \<Rightarrow> s | Some x \<Rightarrow> x) s lines"

text \<open>
  The pointers of \<^verbatim>\<open>read_datafile\<close> between two lines: \<^verbatim>\<open>current\<close> is NULL and
  every Entry of the list has been counted, or \<^verbatim>\<open>current\<close> is the last Entry of the
  list and every Entry before it has been counted.
\<close>

definition pointers_ok :: "parse_state \<Rightarrow> bool" where
  "pointers_ok st =
     (case current st of
        None \<Rightarrow> entry_num st = length (entry_list st)
      | Some i \<Rightarrow> Suc i = length (entry_list st) \<and> entry_num st = i)"


section \<open>Concrete inputs\<close>

text \<open>
  A canned reply for \<^verbatim>\<open>example.com\<close> with an SOA record of serial 100 in its
  authority section, a heap that holds it at address 0, an Entry for it with every
  predicate inactive, and a query for \<^verbatim>\<open>EXAMPLE.COM\<close>.
\<close>

definition ex_reply :: ldns_pkt where
  "ex_reply = empty_pkt\<lparr>pkt_id := 7, pkt_qr := True, pkt_aa := True,
     pkt_question := [\<lparr>rr_owner = [''example'', ''com''], rr_type = 1, rr_ttl = 0, rr_rdfs = []\<rparr>],
     pkt_authority := [\<lparr>rr_owner = [''example'', ''com''], rr_type = 6, rr_ttl = 3600,
                        rr_rdfs = [[2, 110, 115], [4, 109, 97, 105, 108], [0, 0, 0, 100],
                                   [0, 0, 14, 16], [0, 0, 3, 132], [0, 9, 58, 128], [0, 0, 14, 16]]\<rparr>]\<rparr>"

definition ex_heap :: pkt_heap where
  "ex_heap = \<lparr>pkts = (\<lambda>a. empty_pkt)(0 := ex_reply), brk = 1\<rparr>"

definition ex_entry :: entry where
  "ex_entry = \<lparr>match_opcode = False, match_qtype = False, match_qname = False,
     match_serial = False, ixfr_soa_serial = 100, match_transport = transport_any,
     reply = 0, copy_id = True\<rparr>"

definition ex_query :: ldns_pkt where
  "ex_query = empty_pkt\<lparr>pkt_id := 4660,
     pkt_question := [\<lparr>rr_owner = [''EXAMPLE'', ''COM''], rr_type = 1, rr_ttl = 0, rr_rdfs = []\<rparr>]\<rparr>"

lemmas ex_defs = ex_reply_def ex_heap_def ex_entry_def ex_query_def empty_pkt_def

text \<open>
  A codec to evaluate the parser on concrete files: a record line decodes to a record
  of type 1 that is owned by the text of the line and has the default TTL; the wire
  codec, which the parser does not call, decodes and encodes nothing.  It takes the
  place of the library in closed examples only; the theorems hold for every codec.
\<close>

definition stub_codec :: codec where
  "stub_codec = \<lparr>
     ldns_str2rdf_dname = (\<lambda>s. Inr [s]),
     ldns_rr_new_frm_str = (\<lambda>line ttl org prev.
        Inr (\<lparr>rr_owner = [line], rr_type = 1, rr_ttl = ttl, rr_rdfs = []\<rparr>, prev)),
     ldns_wire2pkt = (\<lambda>bs. Inl ''not decoded''),
     ldns_pkt2wire = (\<lambda>k. Inl ''not encoded'')\<rparr>"

definition no_pkts :: pkt_heap where
  "no_pkts = \<lparr>pkts = (\<lambda>a. empty_pkt), brk = 0\<rparr>"


section \<open>Entry Matcher\<close>

lemma get_qtype_spec: "get_qtype p = spec_qtype p"
  by (simp add: get_qtype_def spec_qtype_def ldns_rr_list_rr_def split: list.splits)

lemma get_owner_first:
  "get_owner p = (case pkt_question p of [] \<Rightarrow> None | rr # _ \<Rightarrow> Some (rr_owner rr))"
  by (simp add: get_owner_def ldns_rr_list_rr_def split: list.splits)

lemma get_serial_spec: "get_serial p = spec_soa_serial p"
  by (auto simp: get_serial_def spec_soa_serial_def ldns_rr_list_rr_def ldns_rr_rdf_def
      split: list.splits)

lemma qname_test_spec:
  "(case get_owner q of
      None \<Rightarrow> True
    | Some qo \<Rightarrow>
        (case get_owner r of
           None \<Rightarrow> True
         | Some ro \<Rightarrow> ldns_dname_compare qo ro \<noteq> 0)) \<longleftrightarrow> \<not> spec_qname_equal q r"
  by (simp add: get_owner_first spec_qname_equal_def ldns_dname_compare_def split: list.splits)

lemma find_match_step:
  "find_match h (p # rest) q t =
     (if spec_entry_matches h p q t then Some p else find_match h rest q t)"
  by (simp add: spec_entry_matches_def get_qtype_spec get_serial_spec qname_test_spec)

lemma find_match_single:
  "find_match h [e] q t \<noteq> None \<longleftrightarrow> spec_entry_matches h e q t"
  by (simp add: find_match_step del: find_match.simps(2))

lemma first_match_Cons_hit:
  assumes "spec_entry_matches h p q t"
  shows "(\<exists>pre post. p # rest = pre @ m # post \<and> spec_entry_matches h m q t \<and>
            (\<forall>e \<in> set pre. \<not> spec_entry_matches h e q t)) \<longleftrightarrow> p = m"
proof
  assume "\<exists>pre post. p # rest = pre @ m # post \<and> spec_entry_matches h m q t \<and>
            (\<forall>e \<in> set pre. \<not> spec_entry_matches h e q t)"
  then obtain pre post where d: "p # rest = pre @ m # post"
    and n: "\<forall>e \<in> set pre. \<not> spec_entry_matches h e q t" by blast
  show "p = m"
  proof (cases pre)
    case Nil
    with d show ?thesis by simp
  next
    case (Cons a as)
    with d have "a = p" by simp
    with Cons n assms show ?thesis by simp
  qed
next
  assume "p = m"
  with assms have "p # rest = [] @ m # rest \<and> spec_entry_matches h m q t \<and>
         (\<forall>e \<in> set []. \<not> spec_entry_matches h e q t)" by simp
  then show "\<exists>pre post. p # rest = pre @ m # post \<and> spec_entry_matches h m q t \<and>
         (\<forall>e \<in> set pre. \<not> spec_entry_matches h e q t)" by blast
qed

lemma first_match_Cons_miss:
  assumes "\<not> spec_entry_matches h p q t"
  shows "(\<exists>pre post. p # rest = pre @ m # post \<and> spec_entry_matches h m q t \<and>
            (\<forall>e \<in> set pre. \<not> spec_entry_matches h e q t)) \<longleftrightarrow>
         (\<exists>pre post. rest = pre @ m # post \<and> spec_entry_matches h m q t \<and>
            (\<forall>e \<in> set pre. \<not> spec_entry_matches h e q t))" (is "?L \<longleftrightarrow> ?R")
proof
  assume ?L
  then obtain pre post where d: "p # rest = pre @ m # post"
    and m: "spec_entry_matches h m q t"
    and n: "\<forall>e \<in> set pre. \<not> spec_entry_matches h e q t" by blast
  show ?R
  proof (cases pre)
    case Nil
    with d m assms show ?thesis by simp
  next
    case (Cons a as)
    with d have "rest = as @ m # post" by simp
    moreover from Cons n have "\<forall>e \<in> set as. \<not> spec_entry_matches h e q t" by simp
    ultimately show ?thesis using m by blast
  qed
next
  assume ?R
  then obtain pre post where d: "rest = pre @ m # post"
    and m: "spec_entry_matches h m q t"
    and n: "\<forall>e \<in> set pre. \<not> spec_entry_matches h e q t" by blast
  from d have "p # rest = (p # pre) @ m # post" by simp
  moreover from n assms have "\<forall>e \<in> set (p # pre). \<not> spec_entry_matches h e q t" by simp
  ultimately show ?L using m by blast
qed

text \<open>
  C1.  \<^verbatim>\<open>find_match\<close> returns the first Entry of the list, in list order, whose active
  predicates all hold: it returns \<open>m\<close> exactly when the list splits into Entries that
  each fail an active predicate, then \<open>m\<close>, which satisfies all of its active
  predicates, then the rest; and it returns NULL exactly when every Entry fails an
  active predicate.
\<close>

theorem find_match_first:
  "(find_match h es q t = None \<longleftrightarrow> (\<forall>e \<in> set es. \<not> spec_entry_matches h e q t)) \<and>
   (find_match h es q t = Some m \<longleftrightarrow>
      (\<exists>pre post. es = pre @ m # post \<and> spec_entry_matches h m q t \<and>
         (\<forall>e \<in> set pre. \<not> spec_entry_matches h e q t)))"
proof (induction es)
  case Nil
  show ?case by simp
next
  case (Cons p rest)
  show ?case
  proof (cases "spec_entry_matches h p q t")
    case True
    with first_match_Cons_hit [OF True, of rest m] show ?thesis
      by (auto simp: find_match_step simp del: find_match.simps)
  next
    case False
    with first_match_Cons_miss [OF False, of rest m] Cons.IH show ?thesis
      by (simp add: find_match_step del: find_match.simps)
  qed
qed

theorem find_match_first_witness:
  "find_match ex_heap [ex_entry\<lparr>match_qname := True, reply := 1\<rparr>, ex_entry] ex_query transport_udp
     = Some ex_entry"
proof -
  have "[ex_entry\<lparr>match_qname := True, reply := 1\<rparr>, ex_entry]
          = [ex_entry\<lparr>match_qname := True, reply := 1\<rparr>] @ ex_entry # [] \<and>
        spec_entry_matches ex_heap ex_entry ex_query transport_udp \<and>
        (\<forall>e \<in> set [ex_entry\<lparr>match_qname := True, reply := 1\<rparr>].
           \<not> spec_entry_matches ex_heap e ex_query transport_udp)"
    by (simp add: spec_entry_matches_def spec_qname_equal_def ex_defs)
  then have "\<exists>pre post. [ex_entry\<lparr>match_qname := True, reply := 1\<rparr>, ex_entry]
          = pre @ ex_entry # post \<and>
        spec_entry_matches ex_heap ex_entry ex_query transport_udp \<and>
        (\<forall>e \<in> set pre. \<not> spec_entry_matches ex_heap e ex_query transport_udp)"
    by blast
  with find_match_first [of ex_heap "[ex_entry\<lparr>match_qname := True, reply := 1\<rparr>, ex_entry]"
      ex_query transport_udp ex_entry]
  show ?thesis by blast
qed

text \<open>
  C2.  For an Entry whose serial predicate is active, the Entry is selected exactly
  when the serial of the first authority record of its canned reply (0 when there is
  no such record or it has no third rdata field) equals the literal of the Entry and
  the Entry would be selected with the serial predicate inactive; otherwise the scan
  goes on with the next Entry.  The serial test reads the heap and the Entry only:
  when no other predicate of the Entry is active, the result of the scan is the same
  for every inbound message and transport.
\<close>

theorem serial_match_reads_reply:
  assumes "match_serial e"
  shows "find_match h (e # rest) q t =
           (if spec_soa_serial (pkts h (reply e)) = ixfr_soa_serial e \<and>
               find_match h [e\<lparr>match_serial := False\<rparr>] q t \<noteq> None
            then Some e else find_match h rest q t) \<and>
         (\<not> match_opcode e \<and> \<not> match_qtype e \<and> \<not> match_qname e \<and>
          match_transport e = transport_any \<longrightarrow>
            find_match h [e] q t = find_match h [e] q' t')"
proof -
  have "spec_entry_matches h e q t \<longleftrightarrow>
          spec_soa_serial (pkts h (reply e)) = ixfr_soa_serial e \<and>
          spec_entry_matches h (e\<lparr>match_serial := False\<rparr>) q t"
    using assms by (auto simp: spec_entry_matches_def)
  then have "find_match h (e # rest) q t =
           (if spec_soa_serial (pkts h (reply e)) = ixfr_soa_serial e \<and>
               find_match h [e\<lparr>match_serial := False\<rparr>] q t \<noteq> None
            then Some e else find_match h rest q t)"
    by (simp only: find_match_single) (simp add: find_match_step del: find_match.simps)
  moreover have "find_match h [e] q t = find_match h [e] q' t'"
    if "\<not> match_opcode e \<and> \<not> match_qtype e \<and> \<not> match_qname e \<and>
        match_transport e = transport_any"
    using that by simp
  ultimately show ?thesis by blast
qed

theorem serial_match_reads_reply_witness:
  "match_serial (ex_entry\<lparr>match_serial := True\<rparr>) \<and>
   spec_soa_serial (pkts ex_heap 0) = 100 \<and>
   find_match ex_heap [ex_entry\<lparr>match_serial := True\<rparr>] ex_query transport_tcp
     = Some (ex_entry\<lparr>match_serial := True\<rparr>) \<and>
   find_match ex_heap [ex_entry\<lparr>match_serial := True\<rparr>] empty_pkt transport_udp
     = Some (ex_entry\<lparr>match_serial := True\<rparr>) \<and>
   find_match ex_heap [ex_entry\<lparr>match_serial := True, ixfr_soa_serial := 101\<rparr>] ex_query transport_tcp
     = None"
  using serial_match_reads_reply [of "ex_entry\<lparr>match_serial := True\<rparr>" ex_heap "[]" ex_query
      transport_tcp empty_pkt transport_udp]
  by (simp add: spec_soa_serial_def ldns_rdf2native_int32_def get_serial_def
      ldns_rr_list_rr_def ldns_rr_rdf_def ex_defs)

text \<open>
  C7.  For an Entry whose query-type predicate is active, the Entry is selected
  exactly when the types of the first question records of the inbound message and
  of the canned reply are equal, a side without a question counting as type 0, and
  the Entry would be selected with the predicate inactive.  For an Entry whose
  query-name predicate is active, the Entry is selected exactly when both sides have
  a first question, their owner names are equal without regard to case, and the
  Entry would be selected with the predicate inactive.
\<close>

theorem question_predicates:
  "(match_qtype e \<longrightarrow>
      find_match h (e # rest) q t =
        (if spec_qtype q = spec_qtype (pkts h (reply e)) \<and>
            find_match h [e\<lparr>match_qtype := False\<rparr>] q t \<noteq> None
         then Some e else find_match h rest q t)) \<and>
   (match_qname e \<longrightarrow>
      find_match h (e # rest) q t =
        (if spec_qname_equal q (pkts h (reply e)) \<and>
            find_match h [e\<lparr>match_qname := False\<rparr>] q t \<noteq> None
         then Some e else find_match h rest q t))"
proof (intro conjI impI)
  assume "match_qtype e"
  then have "spec_entry_matches h e q t \<longleftrightarrow>
          spec_qtype q = spec_qtype (pkts h (reply e)) \<and>
          spec_entry_matches h (e\<lparr>match_qtype := False\<rparr>) q t"
    by (auto simp: spec_entry_matches_def)
  then show "find_match h (e # rest) q t =
        (if spec_qtype q = spec_qtype (pkts h (reply e)) \<and>
            find_match h [e\<lparr>match_qtype := False\<rparr>] q t \<noteq> None
         then Some e else find_match h rest q t)"
    by (simp only: find_match_single) (simp add: find_match_step del: find_match.simps)
next
  assume "match_qname e"
  then have "spec_entry_matches h e q t \<longleftrightarrow>
          spec_qname_equal q (pkts h (reply e)) \<and>
          spec_entry_matches h (e\<lparr>match_qname := False\<rparr>) q t"
    by (auto simp: spec_entry_matches_def)
  then show "find_match h (e # rest) q t =
        (if spec_qname_equal q (pkts h (reply e)) \<and>
            find_match h [e\<lparr>match_qname := False\<rparr>] q t \<noteq> None
         then Some e else find_match h rest q t)"
    by (simp only: find_match_single) (simp add: find_match_step del: find_match.simps)
qed

theorem question_predicates_witness:
  "find_match ex_heap [ex_entry\<lparr>match_qtype := True, match_qname := True\<rparr>] ex_query transport_udp
     = Some (ex_entry\<lparr>match_qtype := True, match_qname := True\<rparr>) \<and>
   find_match ex_heap [ex_entry\<lparr>match_qtype := True, reply := 1\<rparr>] empty_pkt transport_udp
     = Some (ex_entry\<lparr>match_qtype := True, reply := 1\<rparr>) \<and>
   find_match ex_heap [ex_entry\<lparr>match_qname := True, reply := 1\<rparr>] empty_pkt transport_udp = None \<and>
   find_match ex_heap [ex_entry\<lparr>match_qname := True\<rparr>] empty_pkt transport_udp = None \<and>
   find_match ex_heap [ex_entry\<lparr>match_qname := True, reply := 1\<rparr>] ex_query transport_udp = None"
  using question_predicates [of "ex_entry\<lparr>match_qtype := True, match_qname := True\<rparr>"
      ex_heap "[]" ex_query transport_udp]
  by (simp add: get_qtype_def get_owner_def ldns_rr_list_rr_def ldns_dname_compare_def
      lower_char_def ex_defs)


section \<open>Response Builder\<close>

text \<open>
  C3.  When \<^verbatim>\<open>find_match\<close> selects Entry \<open>m\<close>, whose canned reply is an allocated
  packet, \<^verbatim>\<open>get_answer\<close> returns a newly allocated packet whose contents are those
  of the canned reply with the transaction id replaced by the id of the inbound
  message when \<^verbatim>\<open>copy_id\<close> is set and left as it is when \<^verbatim>\<open>copy_id\<close> is unset;
  nothing else in the heap changes, so the canned reply of the Entry is as before.
\<close>

theorem get_answer_clone:
  assumes "find_match h es q t = Some m" and "reply m < brk h"
  shows "get_answer h es q t =
           (h\<lparr>pkts := (pkts h)(brk h := (pkts h (reply m))
                         \<lparr>pkt_id := (if copy_id m then pkt_id q else pkt_id (pkts h (reply m)))\<rparr>),
              brk := Suc (brk h)\<rparr>,
            Some (brk h)) \<and>
         brk h \<noteq> reply m \<and>
         pkts (fst (get_answer h es q t)) (reply m) = pkts h (reply m)"
  using assms
  by (auto simp: get_answer_def ldns_pkt_clone_def ldns_pkt_set_id_def pkt_update_def)

theorem get_answer_clone_witness:
  "find_match ex_heap [ex_entry] ex_query transport_udp = Some ex_entry \<and>
   reply ex_entry < brk ex_heap \<and>
   snd (get_answer ex_heap [ex_entry] ex_query transport_udp) = Some 1 \<and>
   pkts (fst (get_answer ex_heap [ex_entry] ex_query transport_udp)) 1 = ex_reply\<lparr>pkt_id := 4660\<rparr> \<and>
   pkts (fst (get_answer ex_heap [ex_entry] ex_query transport_udp)) 0 = ex_reply \<and>
   pkts (fst (get_answer ex_heap [ex_entry\<lparr>copy_id := False\<rparr>] ex_query transport_udp)) 1 = ex_reply"
proof -
  have a: "find_match ex_heap [ex_entry] ex_query transport_udp = Some ex_entry"
    by (simp add: ex_defs)
  have b: "reply ex_entry < brk ex_heap"
    by (simp add: ex_defs)
  have c: "find_match ex_heap [ex_entry\<lparr>copy_id := False\<rparr>] ex_query transport_udp
             = Some (ex_entry\<lparr>copy_id := False\<rparr>)"
    by (simp add: ex_defs)
  have d: "reply (ex_entry\<lparr>copy_id := False\<rparr>) < brk ex_heap"
    by (simp add: ex_defs)
  from get_answer_clone [OF a b] get_answer_clone [OF c d] a b
  show ?thesis by (simp add: ex_defs)
qed


section \<open>Data-file parser: what one line does\<close>

lemma entry_line_MATCH:
  "str_keyword parse ''MATCH'' = Some p \<Longrightarrow>
     entry_line cd name st i parse =
       (case matchline p (entry_list st ! i) of
          Inl err \<Rightarrow> Inl err
        | Inr e' \<Rightarrow> Inr (st\<lparr>entry_list := (entry_list st)[i := e']\<rparr>))"
  by (simp add: entry_line_def)

lemma entry_line_REPLY:
  "str_keyword parse ''MATCH'' = None \<Longrightarrow> str_keyword parse ''REPLY'' = Some p \<Longrightarrow>
     entry_line cd name st i parse =
       (case replyline p (entry_list st ! i) (heap st) of
          Inl err \<Rightarrow> Inl err
        | Inr h' \<Rightarrow> Inr (st\<lparr>heap := h'\<rparr>))"
  by (simp add: entry_line_def)

lemma entry_line_ADJUST:
  "str_keyword parse ''MATCH'' = None \<Longrightarrow> str_keyword parse ''REPLY'' = None \<Longrightarrow>
   str_keyword parse ''ADJUST'' = Some p \<Longrightarrow>
     entry_line cd name st i parse =
       (case adjustline p (entry_list st ! i) of
          Inl err \<Rightarrow> Inl err
        | Inr e' \<Rightarrow> Inr (st\<lparr>entry_list := (entry_list st)[i := e']\<rparr>))"
  by (simp add: entry_line_def)

lemma entry_line_SECTION:
  "str_keyword parse ''MATCH'' = None \<Longrightarrow> str_keyword parse ''REPLY'' = None \<Longrightarrow>
   str_keyword parse ''ADJUST'' = None \<Longrightarrow> str_keyword parse ''SECTION'' = Some p \<Longrightarrow>
     entry_line cd name st i parse =
       (case section_name p of
          None \<Rightarrow> Inl (Bad_section name (lineno st) p)
        | Some s \<Rightarrow> Inr (st\<lparr>add_section := s\<rparr>))"
  by (auto simp: entry_line_def section_name_def split: option.splits)

lemma entry_line_ENTRY_END:
  "str_keyword parse ''MATCH'' = None \<Longrightarrow> str_keyword parse ''REPLY'' = None \<Longrightarrow>
   str_keyword parse ''ADJUST'' = None \<Longrightarrow> str_keyword parse ''SECTION'' = None \<Longrightarrow>
   str_keyword parse ''ENTRY_END'' = Some p \<Longrightarrow>
     entry_line cd name st i parse = Inr (st\<lparr>current := None, entry_num := entry_num st + 1\<rparr>)"
  by (simp add: entry_line_def)

lemma entry_line_record:
  "str_keyword parse ''MATCH'' = None \<Longrightarrow> str_keyword parse ''REPLY'' = None \<Longrightarrow>
   str_keyword parse ''ADJUST'' = None \<Longrightarrow> str_keyword parse ''SECTION'' = None \<Longrightarrow>
   str_keyword parse ''ENTRY_END'' = None \<Longrightarrow>
     entry_line cd name st i parse =
       (case ldns_rr_new_frm_str cd parse (ucast (default_ttl st)) (origin st) (prev_rr st) of
          Inl errstr \<Rightarrow> Inl (Rr_error name (lineno st) errstr parse)
        | Inr (n, prev') \<Rightarrow>
            Inr (st\<lparr>prev_rr := prev',
                    heap := ldns_pkt_push_rr (heap st) (reply (entry_list st ! i))
                              (add_section st) n\<rparr>))"
  by (simp add: entry_line_def)

lemma entry_line_cases:
  assumes "entry_line cd name st i parse = Inr st'"
  obtains
    (entry) e' where "str_keyword parse ''SECTION'' = None \<or> str_keyword parse ''MATCH'' \<noteq> None
                        \<or> str_keyword parse ''ADJUST'' \<noteq> None"
      and "st' = st\<lparr>entry_list := (entry_list st)[i := e']\<rparr>"
  | (heap) h' where "str_keyword parse ''SECTION'' = None \<or> str_keyword parse ''REPLY'' \<noteq> None"
      and "st' = st\<lparr>heap := h'\<rparr>"
  | (sect) p s where "str_keyword parse ''MATCH'' = None" and "str_keyword parse ''REPLY'' = None"
      and "str_keyword parse ''ADJUST'' = None" and "str_keyword parse ''SECTION'' = Some p"
      and "section_name p = Some s" and "st' = st\<lparr>add_section := s\<rparr>"
  | (entry_end) "str_keyword parse ''SECTION'' = None"
      and "st' = st\<lparr>current := None, entry_num := entry_num st + 1\<rparr>"
  | (rline) prev' h' where "str_keyword parse ''SECTION'' = None"
      and "st' = st\<lparr>prev_rr := prev', heap := h'\<rparr>"
proof (cases "str_keyword parse ''MATCH''")
  case (Some p)
  with assms entry show ?thesis
    by (auto simp: entry_line_MATCH split: sum.splits)
next
  case m: None
  show ?thesis
  proof (cases "str_keyword parse ''REPLY''")
    case (Some p)
    with assms m heap show ?thesis
      by (auto simp: entry_line_REPLY split: sum.splits)
  next
    case r: None
    show ?thesis
    proof (cases "str_keyword parse ''ADJUST''")
      case (Some p)
      with assms m r entry show ?thesis
        by (auto simp: entry_line_ADJUST split: sum.splits)
    next
      case a: None
      show ?thesis
      proof (cases "str_keyword parse ''SECTION''")
        case (Some p)
        with assms m r a sect show ?thesis
          by (auto simp: entry_line_SECTION split: option.splits)
      next
        case s: None
        show ?thesis
        proof (cases "str_keyword parse ''ENTRY_END''")
          case (Some p)
          with assms m r a s entry_end show ?thesis
            by (auto simp: entry_line_ENTRY_END)
        next
          case None
          with assms m r a s rline show ?thesis
            by (auto simp: entry_line_record split: sum.splits)
        qed
      qed
    qed
  qed
qed

lemma read_line_blank:
  "isendline (peek (line_start raw)) \<Longrightarrow>
     read_line cd name st raw = Inr (st\<lparr>lineno := Suc (lineno st)\<rparr>)"
  by (simp add: read_line_def Let_def)

lemma read_line_ENTRY_BEGIN:
  "\<not> isendline (peek (line_start raw)) \<Longrightarrow> str_keyword (line_start raw) ''ENTRY_BEGIN'' = Some p \<Longrightarrow>
     read_line cd name st raw =
       (if current st \<noteq> None then Inl (Entry_not_ended name (Suc (lineno st)))
        else Inr (st\<lparr>lineno := Suc (lineno st), heap := fst (new_entry (heap st)),
                    entry_list := entry_list st @ [snd (new_entry (heap st))],
                    current := Some (length (entry_list st))\<rparr>))"
  by (simp add: read_line_def Let_def split: prod.splits)

lemma read_line_ORIGIN:
  "\<not> isendline (peek (line_start raw)) \<Longrightarrow> str_keyword (line_start raw) ''ENTRY_BEGIN'' = None \<Longrightarrow>
   str_keyword (line_start raw) ''$ORIGIN'' = Some p \<Longrightarrow>
     read_line cd name st raw =
       (case get_origin cd name (Suc (lineno st)) p of
          Inl err \<Rightarrow> Inl err
        | Inr org \<Rightarrow> Inr (st\<lparr>lineno := Suc (lineno st), origin := org\<rparr>))"
  by (simp add: read_line_def Let_def split: sum.splits)

lemma read_line_TTL:
  "\<not> isendline (peek (line_start raw)) \<Longrightarrow> str_keyword (line_start raw) ''ENTRY_BEGIN'' = None \<Longrightarrow>
   str_keyword (line_start raw) ''$ORIGIN'' = None \<Longrightarrow>
   str_keyword (line_start raw) ''$TTL'' = Some p \<Longrightarrow>
     read_line cd name st raw =
       Inr (st\<lparr>lineno := Suc (lineno st), default_ttl := word_of_int (atoi p)\<rparr>)"
  by (simp add: read_line_def Let_def)

lemma read_line_inside:
  "\<not> isendline (peek (line_start raw)) \<Longrightarrow> str_keyword (line_start raw) ''ENTRY_BEGIN'' = None \<Longrightarrow>
   str_keyword (line_start raw) ''$ORIGIN'' = None \<Longrightarrow>
   str_keyword (line_start raw) ''$TTL'' = None \<Longrightarrow>
     read_line cd name st raw =
       (case current st of
          None \<Rightarrow> Inl (Expected_entry_begin name (Suc (lineno st)) (line_text raw))
        | Some i \<Rightarrow> entry_line cd name (st\<lparr>lineno := Suc (lineno st)\<rparr>) i (line_start raw))"
  by (simp add: read_line_def Let_def split: option.splits)

lemma read_line_cases:
  assumes "read_line cd name st raw = Inr st'"
  obtains
    (blank) "top_level_line raw" and "st' = st\<lparr>lineno := Suc (lineno st)\<rparr>"
  | (entry_begin) "top_level_line raw" and "current st = None"
      and "st' = st\<lparr>lineno := Suc (lineno st), heap := fst (new_entry (heap st)),
                     entry_list := entry_list st @ [snd (new_entry (heap st))],
                     current := Some (length (entry_list st))\<rparr>"
  | (origin) org where "top_level_line raw"
      and "st' = st\<lparr>lineno := Suc (lineno st), origin := org\<rparr>"
  | (ttl) v where "top_level_line raw"
      and "st' = st\<lparr>lineno := Suc (lineno st), default_ttl := v\<rparr>"
  | (inside) i where "\<not> top_level_line raw" and "current st = Some i"
      and "entry_line cd name (st\<lparr>lineno := Suc (lineno st)\<rparr>) i (line_start raw) = Inr st'"
proof (cases "isendline (peek (line_start raw))")
  case True
  with assms blank show ?thesis
    by (auto simp: read_line_blank top_level_line_def)
next
  case e: False
  show ?thesis
  proof (cases "str_keyword (line_start raw) ''ENTRY_BEGIN''")
    case (Some p)
    with assms e entry_begin show ?thesis
      by (auto simp: read_line_ENTRY_BEGIN top_level_line_def split: if_splits)
  next
    case b: None
    show ?thesis
    proof (cases "str_keyword (line_start raw) ''$ORIGIN''")
      case (Some p)
      with assms e b origin show ?thesis
        by (auto simp: read_line_ORIGIN top_level_line_def split: sum.splits)
    next
      case o: None
      show ?thesis
      proof (cases "str_keyword (line_start raw) ''$TTL''")
        case (Some p)
        with assms e b o ttl show ?thesis
          by (auto simp: read_line_TTL top_level_line_def)
      next
        case None
        with assms e b o inside show ?thesis
          by (auto simp: read_line_inside top_level_line_def split: option.splits)
      qed
    qed
  qed
qed


section \<open>Data-file parser: concrete lines\<close>

lemmas line_eval = line_start_def line_text_def MAX_LINE_def isspace_def isendline_def peek_def
  str_keyword_def

lemma line_ENTRY_BEGIN:
  "read_line cd name st ''ENTRY_BEGIN\<newline>'' =
     (if current st \<noteq> None then Inl (Entry_not_ended name (Suc (lineno st)))
      else Inr (st\<lparr>lineno := Suc (lineno st), heap := fst (new_entry (heap st)),
                  entry_list := entry_list st @ [snd (new_entry (heap st))],
                  current := Some (length (entry_list st))\<rparr>))"
  by (rule read_line_ENTRY_BEGIN [where p = "''''"]) (simp_all add: line_eval)

lemma line_ENTRY_END:
  "read_line cd name st ''ENTRY_END\<newline>'' =
     (case current st of
        None \<Rightarrow> Inl (Expected_entry_begin name (Suc (lineno st)) ''ENTRY_END\<newline>'')
      | Some i \<Rightarrow> Inr (st\<lparr>lineno := Suc (lineno st), current := None,
                         entry_num := Suc (entry_num st)\<rparr>))"
proof -
  have "entry_line cd name s i (line_start ''ENTRY_END\<newline>'')
          = Inr (s\<lparr>current := None, entry_num := entry_num s + 1\<rparr>)" for s i
    by (rule entry_line_ENTRY_END [where p = "''''"]) (simp_all add: line_eval)
  moreover have "read_line cd name st ''ENTRY_END\<newline>'' =
       (case current st of
          None \<Rightarrow> Inl (Expected_entry_begin name (Suc (lineno st)) (line_text ''ENTRY_END\<newline>''))
        | Some i \<Rightarrow> entry_line cd name (st\<lparr>lineno := Suc (lineno st)\<rparr>) i
                     (line_start ''ENTRY_END\<newline>''))"
    by (rule read_line_inside) (simp_all add: line_eval)
  ultimately show ?thesis
    by (simp add: line_text_def MAX_LINE_def split: option.splits)
qed

lemma line_SECTION_ANSWER:
  "read_line cd name st ''SECTION ANSWER\<newline>'' =
     (case current st of
        None \<Rightarrow> Inl (Expected_entry_begin name (Suc (lineno st)) ''SECTION ANSWER\<newline>'')
      | Some i \<Rightarrow> Inr (st\<lparr>lineno := Suc (lineno st), add_section := LDNS_SECTION_ANSWER\<rparr>))"
proof -
  have "section_name ''ANSWER\<newline>'' = Some LDNS_SECTION_ANSWER"
    by (simp add: section_name_def line_eval)
  moreover have "entry_line cd name s i (line_start ''SECTION ANSWER\<newline>'')
          = (case section_name ''ANSWER\<newline>'' of
               None \<Rightarrow> Inl (Bad_section name (lineno s) ''ANSWER\<newline>'')
             | Some x \<Rightarrow> Inr (s\<lparr>add_section := x\<rparr>))" for s i
    by (rule entry_line_SECTION) (simp_all add: line_eval)
  moreover have "read_line cd name st ''SECTION ANSWER\<newline>'' =
       (case current st of
          None \<Rightarrow> Inl (Expected_entry_begin name (Suc (lineno st)) (line_text ''SECTION ANSWER\<newline>''))
        | Some i \<Rightarrow> entry_line cd name (st\<lparr>lineno := Suc (lineno st)\<rparr>) i
                     (line_start ''SECTION ANSWER\<newline>''))"
    by (rule read_line_inside) (simp_all add: line_eval)
  ultimately show ?thesis
    by (simp add: line_text_def MAX_LINE_def split: option.splits)
qed

lemma line_record:
  "read_line cd name st ''www IN A 10.0.0.1\<newline>'' =
     (case current st of
        None \<Rightarrow> Inl (Expected_entry_begin name (Suc (lineno st)) ''www IN A 10.0.0.1\<newline>'')
      | Some i \<Rightarrow>
          (case ldns_rr_new_frm_str cd ''www IN A 10.0.0.1\<newline>'' (ucast (default_ttl st))
                  (origin st) (prev_rr st) of
             Inl errstr \<Rightarrow> Inl (Rr_error name (Suc (lineno st)) errstr ''www IN A 10.0.0.1\<newline>'')
           | Inr (n, prev') \<Rightarrow>
               Inr (st\<lparr>lineno := Suc (lineno st), prev_rr := prev',
                       heap := ldns_pkt_push_rr (heap st) (reply (entry_list st ! i))
                                 (add_section st) n\<rparr>)))"
proof -
  have s: "line_start ''www IN A 10.0.0.1\<newline>'' = ''www IN A 10.0.0.1\<newline>''"
    by (simp add: line_eval)
  have "entry_line cd name s i (line_start ''www IN A 10.0.0.1\<newline>'')
          = (case ldns_rr_new_frm_str cd (line_start ''www IN A 10.0.0.1\<newline>'')
                    (ucast (default_ttl s)) (origin s) (prev_rr s) of
               Inl errstr \<Rightarrow> Inl (Rr_error name (lineno s) errstr (line_start ''www IN A 10.0.0.1\<newline>''))
             | Inr (n, prev') \<Rightarrow>
                 Inr (s\<lparr>prev_rr := prev',
                        heap := ldns_pkt_push_rr (heap s) (reply (entry_list s ! i))
                                  (add_section s) n\<rparr>))" for s i
    by (rule entry_line_record) (simp_all add: line_eval)
  moreover have "read_line cd name st ''www IN A 10.0.0.1\<newline>'' =
       (case current st of
          None \<Rightarrow> Inl (Expected_entry_begin name (Suc (lineno st)) (line_text ''www IN A 10.0.0.1\<newline>''))
        | Some i \<Rightarrow> entry_line cd name (st\<lparr>lineno := Suc (lineno st)\<rparr>) i
                     (line_start ''www IN A 10.0.0.1\<newline>''))"
    by (rule read_line_inside) (simp_all add: line_eval)
  ultimately show ?thesis
    by (simp add: s line_text_def MAX_LINE_def split: option.splits sum.splits)
qed

lemma line_TTL_86400:
  "read_line cd name st ''$TTL 86400\<newline>'' =
     Inr (st\<lparr>lineno := Suc (lineno st), default_ttl := 20864\<rparr>)"
proof -
  have "word_of_int (atoi ''86400\<newline>'') = (20864 :: 16 word)"
    by (simp add: atoi_def strtol_def digits_val_def isdigit_def isspace_def peek_def)
  moreover have "read_line cd name st ''$TTL 86400\<newline>'' =
       Inr (st\<lparr>lineno := Suc (lineno st), default_ttl := word_of_int (atoi ''86400\<newline>'')\<rparr>)"
    by (rule read_line_TTL) (simp_all add: line_eval)
  ultimately show ?thesis by simp
qed

lemmas file_eval = line_ENTRY_BEGIN line_ENTRY_END line_SECTION_ANSWER line_record line_TTL_86400
  read_datafile_def init_state_def new_entry_def ldns_pkt_new_def ldns_pkt_push_rr_def
  pkt_update_def no_pkts_def stub_codec_def empty_pkt_def


section \<open>Data-file parser: properties\<close>

lemma entry_line_lineno:
  "entry_line cd name st i parse = Inr st' \<Longrightarrow> lineno st' = lineno st"
  by (erule entry_line_cases) simp_all

lemma read_line_lineno:
  "read_line cd name st raw = Inr st' \<Longrightarrow> lineno st' = Suc (lineno st)"
  by (erule read_line_cases) (auto dest: entry_line_lineno)

lemma read_lines_lineno:
  "read_lines cd name st lines = Inr st' \<Longrightarrow> lineno st' = lineno st + length lines"
proof (induction lines arbitrary: st)
  case Nil
  then show ?case by simp
next
  case (Cons raw rest)
  then show ?case
    by (auto split: sum.splits dest: read_line_lineno)
qed

lemma read_lines_append:
  "read_lines cd name st (xs @ ys) =
     (case read_lines cd name st xs of
        Inl err \<Rightarrow> Inl err
      | Inr st' \<Rightarrow> read_lines cd name st' ys)"
  by (induction xs arbitrary: st) (auto split: sum.splits)

text \<open>
  C6.  When the lines before it have been read without an error, a line that starts
  with \<^verbatim>\<open>ENTRY_BEGIN\<close> while an Entry is open, and a line that is not blank, not a
  comment and starts with none of \<^verbatim>\<open>ENTRY_BEGIN\<close>, \<^verbatim>\<open>$ORIGIN\<close>, \<^verbatim>\<open>$TTL\<close>
  (a \<^verbatim>\<open>MATCH\<close>, \<^verbatim>\<open>REPLY\<close>, \<^verbatim>\<open>ADJUST\<close>, \<^verbatim>\<open>SECTION\<close>, \<^verbatim>\<open>ENTRY_END\<close> or record
  line) while no Entry is open, end \<^verbatim>\<open>read_datafile\<close> with the error that names the
  file and the number of that line; no list is returned, whatever follows the line.
\<close>

theorem entry_nesting_is_fatal:
  assumes "read_lines cd name (init_state h) pre = Inr st"
    and "\<not> isendline (peek (line_start raw))"
  shows "(current st \<noteq> None \<and> str_keyword (line_start raw) ''ENTRY_BEGIN'' \<noteq> None \<longrightarrow>
            read_datafile cd h name (Some (pre @ raw # post))
              = Inl (Entry_not_ended name (length pre + 1))) \<and>
         (current st = None \<and>
          str_keyword (line_start raw) ''ENTRY_BEGIN'' = None \<and>
          str_keyword (line_start raw) ''$ORIGIN'' = None \<and>
          str_keyword (line_start raw) ''$TTL'' = None \<longrightarrow>
            read_datafile cd h name (Some (pre @ raw # post))
              = Inl (Expected_entry_begin name (length pre + 1) (line_text raw)))"
proof -
  from assms(1) have ln: "lineno st = length pre"
    by (auto dest: read_lines_lineno simp: init_state_def)
  have rd: "read_datafile cd h name (Some (pre @ raw # post)) = Inl err"
    if "read_line cd name st raw = Inl err" for err
    using that assms(1) by (simp add: read_datafile_def read_lines_append)
  show ?thesis
  proof (intro conjI impI)
    assume "current st \<noteq> None \<and> str_keyword (line_start raw) ''ENTRY_BEGIN'' \<noteq> None"
    then have "read_line cd name st raw = Inl (Entry_not_ended name (Suc (lineno st)))"
      using assms(2) by (auto simp: read_line_ENTRY_BEGIN)
    then show "read_datafile cd h name (Some (pre @ raw # post))
              = Inl (Entry_not_ended name (length pre + 1))"
      using ln by (simp add: rd)
  next
    assume "current st = None \<and>
          str_keyword (line_start raw) ''ENTRY_BEGIN'' = None \<and>
          str_keyword (line_start raw) ''$ORIGIN'' = None \<and>
          str_keyword (line_start raw) ''$TTL'' = None"
    then have "read_line cd name st raw
                 = Inl (Expected_entry_begin name (Suc (lineno st)) (line_text raw))"
      using assms(2) by (simp add: read_line_inside)
    then show "read_datafile cd h name (Some (pre @ raw # post))
              = Inl (Expected_entry_begin name (length pre + 1) (line_text raw))"
      using ln by (simp add: rd)
  qed
qed

theorem entry_nesting_is_fatal_witness:
  "read_datafile stub_codec no_pkts ''f''
     (Some [''ENTRY_BEGIN\<newline>'', ''ENTRY_BEGIN\<newline>'', ''ENTRY_END\<newline>''])
     = Inl (Entry_not_ended ''f'' 2) \<and>
   read_datafile stub_codec no_pkts ''f''
     (Some [''www IN A 10.0.0.1\<newline>'', ''ENTRY_BEGIN\<newline>''])
     = Inl (Expected_entry_begin ''f'' 1 ''www IN A 10.0.0.1\<newline>'')"
proof -
  obtain st where a: "read_lines stub_codec ''f'' (init_state no_pkts) [''ENTRY_BEGIN\<newline>''] = Inr st"
    and c: "current st \<noteq> None"
    by (simp add: line_ENTRY_BEGIN init_state_def)
  have b: "\<not> isendline (peek (line_start ''ENTRY_BEGIN\<newline>''))"
    by (simp add: line_eval)
  have k: "str_keyword (line_start ''ENTRY_BEGIN\<newline>'') ''ENTRY_BEGIN'' \<noteq> None"
    by (simp add: line_eval)
  have a': "read_lines stub_codec ''f'' (init_state no_pkts) [] = Inr (init_state no_pkts)"
    by simp
  have b': "\<not> isendline (peek (line_start ''www IN A 10.0.0.1\<newline>''))"
    by (simp add: line_eval)
  have k': "current (init_state no_pkts) = None \<and>
      str_keyword (line_start ''www IN A 10.0.0.1\<newline>'') ''ENTRY_BEGIN'' = None \<and>
      str_keyword (line_start ''www IN A 10.0.0.1\<newline>'') ''$ORIGIN'' = None \<and>
      str_keyword (line_start ''www IN A 10.0.0.1\<newline>'') ''$TTL'' = None"
    by (simp add: line_eval init_state_def)
  from entry_nesting_is_fatal [OF a b, of "[''ENTRY_END\<newline>'']"] c k
    entry_nesting_is_fatal [OF a' b', of "[''ENTRY_BEGIN\<newline>'']"] k'
  show ?thesis
    by (simp add: line_text_def MAX_LINE_def)
qed

lemma entry_line_add_section:
  assumes "entry_line cd name st i parse = Inr st'"
  shows "add_section st' =
           (if str_keyword parse ''MATCH'' \<noteq> None \<or> str_keyword parse ''REPLY'' \<noteq> None \<or>
               str_keyword parse ''ADJUST'' \<noteq> None then add_section st
            else (case str_keyword parse ''SECTION'' of
                    None \<Rightarrow> add_section st
                  | Some p \<Rightarrow> (case section_name p of None \<Rightarrow> add_section st | Some s \<Rightarrow> s)))"
  using assms by (cases rule: entry_line_cases) auto

lemma read_line_add_section:
  assumes "read_line cd name st raw = Inr st'"
  shows "add_section st' = (case section_directive raw of None \<Rightarrow> add_section st | Some x \<Rightarrow> x)"
  using assms
proof (cases rule: read_line_cases)
  case (inside i)
  from entry_line_add_section [OF inside(3)] inside(1) show ?thesis
    by (auto simp: section_directive_def split: option.splits)
qed (simp_all add: section_directive_def)

lemma read_lines_add_section:
  "read_lines cd name st lines = Inr st' \<Longrightarrow> add_section st' = last_section (add_section st) lines"
proof (induction lines arbitrary: st)
  case Nil
  then show ?case by (simp add: last_section_def)
next
  case (Cons raw rest)
  from Cons.prems obtain st1 where s1: "read_line cd name st raw = Inr st1"
    and s2: "read_lines cd name st1 rest = Inr st'"
    by (auto split: sum.splits)
  from Cons.IH [OF s2] read_line_add_section [OF s1] show ?case
    by (simp add: last_section_def)
qed

text \<open>
  C4, as stated, fails: after an Entry that ends in the Answer section, the target
  section at the next \<^verbatim>\<open>ENTRY_BEGIN\<close> is Answer, and a record line that follows
  goes to the answer section of the new Entry, whose question section stays empty.
\<close>

theorem section_at_entry_begin_counterexample:
  "(case read_lines stub_codec ''f'' (init_state no_pkts)
           [''ENTRY_BEGIN\<newline>'', ''SECTION ANSWER\<newline>'', ''ENTRY_END\<newline>'',
            ''ENTRY_BEGIN\<newline>'']
    of Inl err \<Rightarrow> False
     | Inr st \<Rightarrow> current st = Some 1 \<and> add_section st = LDNS_SECTION_ANSWER) \<and>
   (case read_datafile stub_codec no_pkts ''f''
           (Some [''ENTRY_BEGIN\<newline>'', ''SECTION ANSWER\<newline>'', ''ENTRY_END\<newline>'',
                  ''ENTRY_BEGIN\<newline>'', ''www IN A 10.0.0.1\<newline>'', ''ENTRY_END\<newline>''])
    of Inl err \<Rightarrow> False
     | Inr (h, es, n) \<Rightarrow>
         map reply es = [0, 1] \<and> pkt_question (pkts h 1) = [] \<and>
         map rr_owner (pkt_answer (pkts h 1)) = [[''www IN A 10.0.0.1\<newline>'']])"
  by (simp add: file_eval)

text \<open>
  C4 as amended.  After any lines of a data file that are read without an error the
  target section is the section named by the last \<^verbatim>\<open>SECTION\<close> directive among
  them, in whichever Entry it stands, and Question when there is none.  A line that
  starts with \<^verbatim>\<open>ENTRY_BEGIN\<close> is no such directive: the Entry it opens starts with
  the target section that the lines before it left.
\<close>

theorem section_kept_across_entries:
  assumes "read_lines cd name (init_state h) lines = Inr st"
  shows "add_section st = last_section LDNS_SECTION_QUESTION lines \<and>
         (str_keyword (line_start raw) ''ENTRY_BEGIN'' \<noteq> None \<longrightarrow>
            last_section LDNS_SECTION_QUESTION (lines @ [raw]) = add_section st)"
proof -
  from read_lines_add_section [OF assms]
  have a: "add_section st = last_section LDNS_SECTION_QUESTION lines"
    by (simp add: init_state_def)
  have b: "section_directive raw = None"
    if "str_keyword (line_start raw) ''ENTRY_BEGIN'' \<noteq> None"
    using that by (simp add: section_directive_def top_level_line_def)
  from a b show ?thesis
    by (simp add: last_section_def)
qed

theorem section_kept_across_entries_witness:
  "last_section LDNS_SECTION_QUESTION
     [''ENTRY_BEGIN\<newline>'', ''SECTION ANSWER\<newline>'', ''ENTRY_END\<newline>''] = LDNS_SECTION_ANSWER \<and>
   last_section LDNS_SECTION_QUESTION
     [''ENTRY_BEGIN\<newline>'', ''SECTION ANSWER\<newline>'', ''ENTRY_END\<newline>'', ''ENTRY_BEGIN\<newline>'']
     = LDNS_SECTION_ANSWER"
proof -
  obtain st where a: "read_lines stub_codec ''f'' (init_state no_pkts)
      [''ENTRY_BEGIN\<newline>'', ''SECTION ANSWER\<newline>'', ''ENTRY_END\<newline>''] = Inr st"
    and c: "add_section st = LDNS_SECTION_ANSWER"
    by (simp add: file_eval)
  have k: "str_keyword (line_start ''ENTRY_BEGIN\<newline>'') ''ENTRY_BEGIN'' \<noteq> None"
    by (simp add: line_eval)
  from section_kept_across_entries [OF a, of "''ENTRY_BEGIN\<newline>''"] c k
  show ?thesis by simp
qed

lemma entry_line_pointers:
  assumes "entry_line cd name st i parse = Inr st'" and "current st = Some i"
    and "Suc i = length (entry_list st)" and "entry_num st = i"
  shows "pointers_ok st'"
  using assms(1)
  by (cases rule: entry_line_cases) (use assms(2-4) in \<open>auto simp: pointers_ok_def\<close>)

lemma read_line_pointers:
  assumes "read_line cd name st raw = Inr st'" and "pointers_ok st"
  shows "pointers_ok st'"
  using assms(1)
proof (cases rule: read_line_cases)
  case (inside i)
  from inside(2) assms(2) have "Suc i = length (entry_list st)" "entry_num st = i"
    by (simp_all add: pointers_ok_def)
  with inside(2) entry_line_pointers [OF inside(3)] show ?thesis by simp
qed (use assms(2) in \<open>auto simp: pointers_ok_def split: option.splits\<close>)

lemma read_lines_pointers:
  "read_lines cd name st lines = Inr st' \<Longrightarrow> pointers_ok st \<Longrightarrow> pointers_ok st'"
proof (induction lines arbitrary: st)
  case Nil
  then show ?case by simp
next
  case (Cons raw rest)
  then show ?case
    by (auto split: sum.splits dest: read_line_pointers)
qed

lemma find_match_skip:
  "\<forall>e \<in> set pre. \<not> spec_entry_matches h e q t \<Longrightarrow>
     find_match h (pre @ rest) q t = find_match h rest q t"
  by (induction pre) (simp_all add: find_match_step del: find_match.simps(2))

text \<open>
  C10.  When the last line of the file has been read without an error and an Entry is
  still open, \<^verbatim>\<open>read_datafile\<close> returns its list: the open Entry is the last Entry
  of that list, the number of entries that is printed is one less than the length of
  the list, and \<^verbatim>\<open>find_match\<close> selects the open Entry when its active predicates
  hold and every Entry before it fails one.
\<close>

theorem eof_inside_entry:
  assumes "read_lines cd name (init_state h) lines = Inr st" and "current st \<noteq> None"
  shows "read_datafile cd h name (Some lines) = Inr (heap st, entry_list st, entry_num st) \<and>
         entry_list st \<noteq> [] \<and>
         current st = Some (length (entry_list st) - 1) \<and>
         entry_num st = length (entry_list st) - 1 \<and>
         (spec_entry_matches (heap st) (last (entry_list st)) q t \<and>
          (\<forall>e \<in> set (butlast (entry_list st)). \<not> spec_entry_matches (heap st) e q t) \<longrightarrow>
            find_match (heap st) (entry_list st) q t = Some (last (entry_list st)))"
proof -
  have "pointers_ok (init_state h)"
    by (simp add: pointers_ok_def init_state_def)
  with assms(1) have "pointers_ok st"
    by (rule read_lines_pointers)
  with assms(2) obtain i where i: "current st = Some i" "Suc i = length (entry_list st)"
    "entry_num st = i"
    by (auto simp: pointers_ok_def split: option.splits)
  then have ne: "entry_list st \<noteq> []" by auto
  have fm: "find_match (heap st) (entry_list st) q t = Some (last (entry_list st))"
    if "spec_entry_matches (heap st) (last (entry_list st)) q t"
      and "\<forall>e \<in> set (butlast (entry_list st)). \<not> spec_entry_matches (heap st) e q t"
  proof -
    have "find_match (heap st) (butlast (entry_list st) @ [last (entry_list st)]) q t
            = find_match (heap st) [last (entry_list st)] q t"
      using that(2) by (rule find_match_skip)
    with ne that(1) show ?thesis
      by (simp add: find_match_step del: find_match.simps(2))
  qed
  from assms(1) i ne fm show ?thesis
    by (auto simp: read_datafile_def)
qed

theorem eof_inside_entry_witness:
  "(case read_datafile stub_codec no_pkts ''f''
           (Some [''ENTRY_BEGIN\<newline>'', ''ENTRY_END\<newline>'', ''ENTRY_BEGIN\<newline>'',
                  ''www IN A 10.0.0.1\<newline>''])
    of Inl err \<Rightarrow> False
     | Inr (h, es, n) \<Rightarrow>
         map reply es = [0, 1] \<and> n = 1 \<and>
         map rr_owner (pkt_question (pkts h 1)) = [[''www IN A 10.0.0.1\<newline>'']])"
proof -
  obtain st where a: "read_lines stub_codec ''f'' (init_state no_pkts)
      [''ENTRY_BEGIN\<newline>'', ''ENTRY_END\<newline>'', ''ENTRY_BEGIN\<newline>'',
       ''www IN A 10.0.0.1\<newline>''] = Inr st"
    and c: "current st \<noteq> None"
    and d: "map reply (entry_list st) = [0, 1]"
    and e: "map rr_owner (pkt_question (pkts (heap st) 1)) = [[''www IN A 10.0.0.1\<newline>'']]"
    by (simp add: file_eval)
  from eof_inside_entry [OF a c] d e
  show ?thesis
    by (cases "entry_list st") auto
qed

text \<open>
  C8 at the line \<^verbatim>\<open>$TTL 86400\<close>: the default TTL that the parser keeps is 20864,
  which is 86400 modulo 65536, and that is the default TTL with which the record line
  after it is decoded.
\<close>

theorem ttl_directive_keeps_16_bits:
  "read_line cd name st ''$TTL 86400\<newline>''
     = Inr (st\<lparr>lineno := Suc (lineno st), default_ttl := 20864\<rparr>) \<and>
   (case read_datafile stub_codec no_pkts ''f''
           (Some [''ENTRY_BEGIN\<newline>'', ''$TTL 86400\<newline>'', ''www IN A 10.0.0.1\<newline>'',
                  ''ENTRY_END\<newline>''])
    of Inl err \<Rightarrow> False
     | Inr (h, es, n) \<Rightarrow> map rr_ttl (pkt_question (pkts h 0)) = [20864])"
  by (simp add: file_eval)


section \<open>Request handling: properties\<close>

lemma read_n_bytes_from_done:
  "\<not> count < sz \<Longrightarrow> read_n_bytes_from sock buf sz count = Some (sock, buf)"
  by (cases sock) simp_all

text \<open>
  When \<^verbatim>\<open>find_match\<close> finds no Entry for the decoded message, \<^verbatim>\<open>handle_query\<close>
  counts the query and returns what the encoder gives for the NULL packet.
\<close>

lemma handle_query_no_match:
  assumes "ldns_wire2pkt cd (take inlen inbuf) = Inr q"
    and "find_match h entries q t = None"
  shows "handle_query cd h inbuf inlen entries count t =
           (h, count + 1,
            case ldns_pkt2wire cd None of Inl errstr \<Rightarrow> None | Inr outbuf \<Rightarrow> Some outbuf)"
  using assms by (simp add: handle_query_def get_answer_def split: sum.splits)

text \<open>
  C9 at a declared length of 4096: the two bytes 16 and 0 are the length 4096, which
  is the size of \<^verbatim>\<open>inbuf\<close>; \<^verbatim>\<open>handle_tcp\<close> closes the connection without reading
  the payload, whatever the connection holds after the prefix, and writes nothing.
  \<^verbatim>\<open>handle_udp\<close> passes a datagram of 4096 bytes on to \<^verbatim>\<open>handle_query\<close>.
\<close>

theorem tcp_length_4096_rejected:
  "handle_tcp cd h entries count (Some (Read_gives [16, 0] # rest)) tcplen_mem inbuf_mem
     = Some (h, count, []) \<and>
   handle_udp cd h entries count (Some (replicate 4096 b))
     = handle_query cd h (replicate 4096 b) 4096 entries count transport_udp"
  by (simp add: handle_tcp_def handle_udp_def read_n_bytes_def read_n_bytes_from_done
      store_bytes_def INBUF_SIZE_def)


end
